theory Spec2Isabelle
  imports Main "HOL-Library.Word" "HOL-Library.Char_ord" "HOL-Library.List_Lexorder"
begin

section \<open>The embedded task store (class TaskDatabase)\<close>

text \<open>
  The class \<^verbatim>\<open>TaskDatabase\<close> keeps one table \<^verbatim>\<open>tasks\<close> in an in-process SQL engine
  (sql.js) and copies the whole engine state into the \<^verbatim>\<open>localStorage\<close> entry
  \<^verbatim>\<open>taskDatabase\<close> after every statement that writes. The model follows the class
  method by method. The engine and the browser are libraries, not code of the class:
  the SQL statements the class issues are modelled by functions on the table content,
  and what cannot be written down concretely (the engine's file format, the decoding of
  JSON texts the class never writes, the capacity of \<^verbatim>\<open>localStorage\<close>) is a field of
  a \<open>platform\<close> record that every method takes as its first argument.
\<close>

subsection \<open>Data model\<close>

text \<open>
  A row of \<^verbatim>\<open>tasks\<close>, the interface \<^verbatim>\<open>Task\<close>. The column \<^verbatim>\<open>id\<close> is called
  \<open>task_id\<close> here. The seven other columns are declared \<^verbatim>\<open>TEXT\<close>; the union types of
  \<^verbatim>\<open>status\<close> and \<^verbatim>\<open>priority\<close> exist at compile time only, at run time the values are
  strings. Row ids are far below the engine's 63-bit limit, so they are unbounded
  integers here.
\<close>

record task =
  task_id :: int
  title :: string
  description :: string
  status :: string
  priority :: string
  user_id :: string
  created_at :: string
  updated_at :: string

text \<open>
  The engine state as far as the class can observe it: the rows of \<^verbatim>\<open>tasks\<close> in rowid
  order, and the counter that \<^verbatim>\<open>AUTOINCREMENT\<close> keeps in \<^verbatim>\<open>sqlite_sequence\<close> (the
  largest rowid ever given out). A database without the table is represented like one
  with the empty table: \<^verbatim>\<open>initializeDatabase\<close> runs
  \<^verbatim>\<open>CREATE TABLE IF NOT EXISTS\<close> before any other statement.
\<close>

record engine =
  tasks :: "task list"
  sqlite_sequence :: int

type_synonym byte = "8 word"

datatype error =
    JsonError        \<comment> \<open>\<^verbatim>\<open>JSON.parse\<close> or \<^verbatim>\<open>new Uint8Array\<close> throws\<close>
  | EngineError      \<comment> \<open>the engine throws on a statement\<close>
  | QuotaExceeded    \<comment> \<open>\<^verbatim>\<open>localStorage.setItem\<close> throws\<close>
  | TypeError        \<comment> \<open>a method is called on \<^verbatim>\<open>null\<close>\<close>
  | Unsupported      \<comment> \<open>the SQL text built by \<^verbatim>\<open>updateTask\<close> is outside the modelled fragment\<close>

text \<open>
  The libraries under the class.
  \<^item> \<open>export_db\<close> is \<^verbatim>\<open>db.export()\<close>, the engine state as a database file.
  \<^item> \<open>open_db\<close> is \<^verbatim>\<open>new SQL.Database(bytes)\<close> followed by the first statement on
    it; \<open>None\<close> when the engine rejects the bytes.
  \<^item> \<open>json_other\<close> is \<^verbatim>\<open>new Uint8Array(JSON.parse(text))\<close> on a text that is not an
    array of byte numerals as \<^verbatim>\<open>JSON.stringify\<close> writes it; \<open>None\<close> when that throws.
  \<^item> \<open>setItem_ok\<close> tells whether \<^verbatim>\<open>localStorage.setItem\<close> accepts the value.
\<close>

record platform =
  export_db :: "engine \<Rightarrow> byte list"
  open_db :: "byte list \<Rightarrow> engine option"
  json_other :: "string \<Rightarrow> byte list option"
  setItem_ok :: "string \<Rightarrow> bool"

text \<open>
  The fields of the class, and the \<^verbatim>\<open>localStorage\<close> entry \<^verbatim>\<open>taskDatabase\<close>
  (\<open>None\<close>: \<^verbatim>\<open>getItem\<close> returns \<^verbatim>\<open>null\<close>). The field \<open>db\<close> is read only once
  \<open>initialized\<close> is set.
\<close>

record state =
  db :: "engine option"
  initialized :: bool
  localStorage :: "string option"

subsection \<open>The snapshot text: \<^verbatim>\<open>JSON.stringify(Array.from(data))\<close> and back\<close>

definition digit_chars :: string where
  "digit_chars = ''0123456789''"

definition digit_char :: "nat \<Rightarrow> char" where
  "digit_char d = digit_chars ! d"

text \<open>The decimal numeral of a number below 256, as JavaScript prints it.\<close>

definition show_byte :: "nat \<Rightarrow> string" where
  "show_byte n =
     (if n < 10 then [digit_char n]
      else if n < 100 then [digit_char (n div 10), digit_char (n mod 10)]
      else [digit_char (n div 100), digit_char (n div 10 mod 10), digit_char (n mod 10)])"

fun join_commas :: "string list \<Rightarrow> string" where
  "join_commas [] = []"
| "join_commas [p] = p"
| "join_commas (p # q # ps) = p @ CHR '','' # join_commas (q # ps)"

definition JSON_stringify :: "byte list \<Rightarrow> string" where
  "JSON_stringify bs = CHR ''['' # join_commas (map (\<lambda>b. show_byte (unat b)) bs) @ '']''"

definition is_digit :: "char \<Rightarrow> bool" where
  "is_digit c \<longleftrightarrow> c \<in> set digit_chars"

definition digit_val :: "char \<Rightarrow> nat" where
  "digit_val c = of_char c - 48"

text \<open>
  A numeral is read as a byte when it is what \<open>show_byte\<close> prints for a number below
  256; every other text is left to \<open>json_other\<close>.
\<close>

definition parse_byte :: "string \<Rightarrow> byte option" where
  "parse_byte p =
     (if p \<noteq> [] \<and> length p \<le> 3 \<and> list_all is_digit p then
        (let n = foldl (\<lambda>a c. 10 * a + digit_val c) 0 p
         in if n < 256 \<and> show_byte n = p then Some (of_nat n) else None)
      else None)"

fun split_on :: "char \<Rightarrow> string \<Rightarrow> string list" where
  "split_on c [] = [[]]"
| "split_on c (x # xs) =
     (if x = c then [] # split_on c xs
      else (case split_on c xs of [] \<Rightarrow> [[x]] | p # ps \<Rightarrow> (x # p) # ps))"

definition parse_byte_array :: "string \<Rightarrow> byte list option" where
  "parse_byte_array s =
     (case s of
        [] \<Rightarrow> None
      | c # rest \<Rightarrow>
          if c = CHR ''['' \<and> rest \<noteq> [] \<and> last rest = CHR '']'' then
            (let inner = butlast rest
             in if inner = [] then Some []
                else those (map parse_byte (split_on CHR '','' inner)))
          else None)"

text \<open>\<^verbatim>\<open>new Uint8Array(JSON.parse(savedDb))\<close>\<close>

definition JSON_parse_bytes :: "platform \<Rightarrow> string \<Rightarrow> byte list option" where
  "JSON_parse_bytes P s =
     (case parse_byte_array s of Some bs \<Rightarrow> Some bs | None \<Rightarrow> json_other P s)"

subsection \<open>The SQL statements of the class\<close>

text \<open>\<^verbatim>\<open>new SQL.Database()\<close> after \<^verbatim>\<open>CREATE TABLE IF NOT EXISTS tasks\<close>.\<close>

definition new_Database :: engine where
  "new_Database = \<lparr>tasks = [], sqlite_sequence = 0\<rparr>"

definition largest_rowid :: "task list \<Rightarrow> int" where
  "largest_rowid rs = foldr max (map task_id rs) 0"

text \<open>
  \<^verbatim>\<open>INSERT INTO tasks (title, description, priority, user_id, created_at, updated_at)
  VALUES (?, ?, ?, ?, datetime('now'), datetime('now'))\<close>, then
  \<^verbatim>\<open>SELECT last_insert_rowid()\<close>. \<^verbatim>\<open>AUTOINCREMENT\<close> gives the row one more than the
  largest rowid the table ever held; \<^verbatim>\<open>status\<close> takes its default. \<open>now\<close> is the value
  of \<^verbatim>\<open>datetime('now')\<close>, the same for both columns of one statement.
\<close>

definition insert_task ::
    "engine \<Rightarrow> string \<Rightarrow> string \<Rightarrow> string \<Rightarrow> string \<Rightarrow> string \<Rightarrow> int \<times> engine" where
  "insert_task e ttl descr prio uid now =
     (let i = max (sqlite_sequence e) (largest_rowid (tasks e)) + 1;
          r = \<lparr>task_id = i, title = ttl, description = descr, status = ''pending'',
               priority = prio, user_id = uid, created_at = now, updated_at = now\<rparr>
      in (i, \<lparr>tasks = tasks e @ [r], sqlite_sequence = i\<rparr>))"

text \<open>\<^verbatim>\<open>SELECT * FROM tasks WHERE id = ?\<close>, first row of the result.\<close>

definition select_by_id :: "engine \<Rightarrow> int \<Rightarrow> task option" where
  "select_by_id e i = find (\<lambda>r. task_id r = i) (tasks e)"

text \<open>
  \<^verbatim>\<open>ORDER BY created_at DESC\<close>: the engine's sorter compares the \<^verbatim>\<open>TEXT\<close> values
  byte by byte and keeps rows with equal keys in the order of the table scan, which is
  rowid order. \<open>insert_desc r rs\<close> puts a row that was scanned before all of \<open>rs\<close> into
  the sorted \<open>rs\<close>.
\<close>

fun insert_desc :: "task \<Rightarrow> task list \<Rightarrow> task list" where
  "insert_desc r [] = [r]"
| "insert_desc r (x # xs) =
     (if created_at r < created_at x then x # insert_desc r xs else r # x # xs)"

fun order_by_created_at_desc :: "task list \<Rightarrow> task list" where
  "order_by_created_at_desc [] = []"
| "order_by_created_at_desc (r # rs) = insert_desc r (order_by_created_at_desc rs)"

text \<open>\<^verbatim>\<open>SELECT * FROM tasks WHERE user_id = ? ORDER BY created_at DESC\<close>\<close>

definition select_by_user :: "engine \<Rightarrow> string \<Rightarrow> task list" where
  "select_by_user e uid = order_by_created_at_desc (filter (\<lambda>r. user_id r = uid) (tasks e))"

text \<open>\<^verbatim>\<open>DELETE FROM tasks WHERE id = ?\<close>\<close>

definition delete_by_id :: "engine \<Rightarrow> int \<Rightarrow> engine" where
  "delete_by_id e i = e\<lparr>tasks := filter (\<lambda>r. task_id r \<noteq> i) (tasks e)\<rparr>"

text \<open>
  \<^verbatim>\<open>UPDATE tasks SET ${setClause}, updated_at = datetime('now') WHERE id = ?\<close>, where
  \<^verbatim>\<open>setClause\<close> has one \<^verbatim>\<open>field = ?\<close> for every key of \<^verbatim>\<open>updates\<close>. The keys go into
  the SQL text as they are, so the engine decides what a key means:
  \<^item> the name of a \<^verbatim>\<open>TEXT\<close> column is an assignment to that column;
  \<^item> \<^verbatim>\<open>id\<close> and its aliases assign to the rowid, which is not modelled;
  \<^item> any other word of lower-case letters, digits and underscores makes the statement
    fail when it is prepared (no such column, or a syntax error);
  \<^item> a key with any other character (upper case, blanks, quotes, SQL text) is not
    modelled.
  The values are JavaScript strings. When a column is assigned twice, the rightmost
  assignment counts; \<^verbatim>\<open>updated_at = datetime('now')\<close> is the last one.
\<close>

datatype column_kind = TextColumn | RowidColumn | NoSuchColumn | NotAWord

definition text_columns :: "string list" where
  "text_columns =
     [''title'', ''description'', ''status'', ''priority'', ''user_id'', ''created_at'',
      ''updated_at'']"

definition word_chars :: string where
  "word_chars = ''abcdefghijklmnopqrstuvwxyz_0123456789''"

definition rowid_names :: "string list" where
  "rowid_names = [''id'', ''rowid'', ''oid'', ''_rowid_'']"

definition column_kind_of :: "string \<Rightarrow> column_kind" where
  "column_kind_of f =
     (if f \<in> set text_columns then TextColumn
      else if f \<in> set rowid_names then RowidColumn
      else if list_all (\<lambda>c. c \<in> set word_chars) f then NoSuchColumn
      else NotAWord)"

definition set_column :: "string \<Rightarrow> string \<Rightarrow> task \<Rightarrow> task" where
  "set_column f v r =
     (if f = ''title'' then r\<lparr>title := v\<rparr>
      else if f = ''description'' then r\<lparr>description := v\<rparr>
      else if f = ''status'' then r\<lparr>status := v\<rparr>
      else if f = ''priority'' then r\<lparr>priority := v\<rparr>
      else if f = ''user_id'' then r\<lparr>user_id := v\<rparr>
      else if f = ''created_at'' then r\<lparr>created_at := v\<rparr>
      else if f = ''updated_at'' then r\<lparr>updated_at := v\<rparr>
      else r)"

fun apply_assignments :: "(string \<times> string) list \<Rightarrow> task \<Rightarrow> task" where
  "apply_assignments [] r = r"
| "apply_assignments ((f, v) # us) r = apply_assignments us (set_column f v r)"

text \<open>\<^verbatim>\<open>db.prepare\<close> of the \<^verbatim>\<open>UPDATE\<close> text: \<open>None\<close> when the text is accepted.\<close>

definition prepare_update :: "string list \<Rightarrow> error option" where
  "prepare_update keys =
     (if list_ex (\<lambda>f. column_kind_of f = RowidColumn \<or> column_kind_of f = NotAWord) keys
      then Some Unsupported
      else if list_ex (\<lambda>f. column_kind_of f = NoSuchColumn) keys then Some EngineError
      else None)"

definition update_by_id :: "engine \<Rightarrow> (string \<times> string) list \<Rightarrow> string \<Rightarrow> int \<Rightarrow> engine" where
  "update_by_id e updates now i =
     e\<lparr>tasks := map (\<lambda>r. if task_id r = i
                          then (apply_assignments updates r)\<lparr>updated_at := now\<rparr> else r)
                   (tasks e)\<rparr>"

subsection \<open>The methods of the class\<close>

text \<open>\<^verbatim>\<open>saveToLocalStorage\<close>\<close>

definition saveToLocalStorage :: "platform \<Rightarrow> state \<Rightarrow> (error + unit) \<times> state" where
  "saveToLocalStorage P s =
     (case db s of
        None \<Rightarrow> (Inl TypeError, s)
      | Some e \<Rightarrow>
          (let buffer = JSON_stringify (export_db P e)
           in if setItem_ok P buffer then (Inr (), s\<lparr>localStorage := Some buffer\<rparr>)
              else (Inl QuotaExceeded, s)))"

text \<open>\<^verbatim>\<open>initializeDatabase\<close>: the \<^verbatim>\<open>CREATE TABLE IF NOT EXISTS\<close>, then the snapshot.\<close>

definition initializeDatabase :: "platform \<Rightarrow> state \<Rightarrow> (error + unit) \<times> state" where
  "initializeDatabase P s =
     (case db s of None \<Rightarrow> (Inl TypeError, s) | Some e \<Rightarrow> saveToLocalStorage P s)"

text \<open>
  \<^verbatim>\<open>initialize\<close>. The test \<^verbatim>\<open>if (savedDb)\<close> is false for \<^verbatim>\<open>null\<close> and for the empty
  string. An exception leaves \<open>initialized\<close> unset, so the next call starts over. When
  the engine rejects the bytes, the handle that was assigned to \<open>db\<close> is never read; the
  model leaves \<open>db\<close> as it was.
\<close>

definition load_engine :: "platform \<Rightarrow> string option \<Rightarrow> error + engine" where
  "load_engine P savedDb =
     (case savedDb of
        None \<Rightarrow> Inr new_Database
      | Some v \<Rightarrow>
          if v = [] then Inr new_Database
          else (case JSON_parse_bytes P v of
                  None \<Rightarrow> Inl JsonError
                | Some uint8Array \<Rightarrow>
                    (case open_db P uint8Array of
                       None \<Rightarrow> Inl EngineError
                     | Some e \<Rightarrow> Inr e)))"

definition initialize :: "platform \<Rightarrow> state \<Rightarrow> (error + unit) \<times> state" where
  "initialize P s =
     (if initialized s then (Inr (), s)
      else (case load_engine P (localStorage s) of
              Inl err \<Rightarrow> (Inl err, s)
            | Inr e \<Rightarrow>
                (case initializeDatabase P (s\<lparr>db := Some e\<rparr>) of
                   (Inl err, s') \<Rightarrow> (Inl err, s')
                 | (Inr u, s') \<Rightarrow> (Inr (), s'\<lparr>initialized := True\<rparr>))))"

text \<open>\<^verbatim>\<open>getTaskById\<close>; \<open>None\<close> is \<^verbatim>\<open>undefined\<close>.\<close>

definition getTaskById :: "platform \<Rightarrow> int \<Rightarrow> state \<Rightarrow> (error + task option) \<times> state" where
  "getTaskById P i s =
     (case initialize P s of
        (Inl err, s1) \<Rightarrow> (Inl err, s1)
      | (Inr u, s1) \<Rightarrow>
          (case db s1 of
             None \<Rightarrow> (Inl TypeError, s1)
           | Some e \<Rightarrow> (Inr (select_by_id e i), s1)))"

text \<open>
  \<^verbatim>\<open>createTask\<close>. The parameter \<^verbatim>\<open>priority\<close> has the default \<^verbatim>\<open>'medium'\<close>, taken when
  the argument is \<^verbatim>\<open>undefined\<close> (\<open>None\<close>).
\<close>

definition createTask ::
    "platform \<Rightarrow> string \<Rightarrow> string \<Rightarrow> string \<Rightarrow> string option \<Rightarrow> string \<Rightarrow> state
       \<Rightarrow> (error + task option) \<times> state" where
  "createTask P now ttl descr prio userId s =
     (case initialize P s of
        (Inl err, s1) \<Rightarrow> (Inl err, s1)
      | (Inr u, s1) \<Rightarrow>
          (case db s1 of
             None \<Rightarrow> (Inl TypeError, s1)
           | Some e \<Rightarrow>
               (let (lastId, e') =
                      insert_task e ttl descr (case prio of None \<Rightarrow> ''medium'' | Some p \<Rightarrow> p)
                        userId now
                in case saveToLocalStorage P (s1\<lparr>db := Some e'\<rparr>) of
                     (Inl err, s2) \<Rightarrow> (Inl err, s2)
                   | (Inr u', s2) \<Rightarrow> getTaskById P lastId s2)))"

text \<open>\<^verbatim>\<open>getAllTasks\<close>\<close>

definition getAllTasks :: "platform \<Rightarrow> string \<Rightarrow> state \<Rightarrow> (error + task list) \<times> state" where
  "getAllTasks P userId s =
     (case initialize P s of
        (Inl err, s1) \<Rightarrow> (Inl err, s1)
      | (Inr u, s1) \<Rightarrow>
          (case db s1 of
             None \<Rightarrow> (Inl TypeError, s1)
           | Some e \<Rightarrow> (Inr (select_by_user e userId), s1)))"

text \<open>
  \<^verbatim>\<open>updateTask\<close>. \<open>updates\<close> is the object as the list of its own keys with their
  values, in the order of \<^verbatim>\<open>Object.keys\<close>.
\<close>

definition updateTask ::
    "platform \<Rightarrow> string \<Rightarrow> int \<Rightarrow> (string \<times> string) list \<Rightarrow> state
       \<Rightarrow> (error + task option) \<times> state" where
  "updateTask P now i updates s =
     (case initialize P s of
        (Inl err, s1) \<Rightarrow> (Inl err, s1)
      | (Inr u, s1) \<Rightarrow>
          (if map fst updates = [] then getTaskById P i s1
           else (case db s1 of
                   None \<Rightarrow> (Inl TypeError, s1)
                 | Some e \<Rightarrow>
                     (case prepare_update (map fst updates) of
                        Some err \<Rightarrow> (Inl err, s1)
                      | None \<Rightarrow>
                          (case saveToLocalStorage P
                                  (s1\<lparr>db := Some (update_by_id e updates now i)\<rparr>) of
                             (Inl err, s2) \<Rightarrow> (Inl err, s2)
                           | (Inr u', s2) \<Rightarrow> getTaskById P i s2)))))"

text \<open>\<^verbatim>\<open>deleteTask\<close>\<close>

definition deleteTask :: "platform \<Rightarrow> int \<Rightarrow> state \<Rightarrow> (error + bool) \<times> state" where
  "deleteTask P i s =
     (case initialize P s of
        (Inl err, s1) \<Rightarrow> (Inl err, s1)
      | (Inr u, s1) \<Rightarrow>
          (case db s1 of
             None \<Rightarrow> (Inl TypeError, s1)
           | Some e \<Rightarrow>
               (case saveToLocalStorage P (s1\<lparr>db := Some (delete_by_id e i)\<rparr>) of
                  (Inl err, s2) \<Rightarrow> (Inl err, s2)
                | (Inr u', s2) \<Rightarrow> (Inr True, s2))))"

subsection \<open>Predicates of the properties\<close>

text \<open>
  The \<^verbatim>\<open>localStorage\<close> entry holds the snapshot of the engine state the instance has
  now.
\<close>

definition snapshot_current :: "platform \<Rightarrow> state \<Rightarrow> bool" where
  "snapshot_current P s =
     (case db s of
        None \<Rightarrow> False
      | Some e \<Rightarrow> localStorage s = Some (JSON_stringify (export_db P e)))"

text \<open>
  The order in which \<^verbatim>\<open>getAllTasks\<close> returns two rows: later \<^verbatim>\<open>created_at\<close> first,
  and for equal \<^verbatim>\<open>created_at\<close> the smaller id first.
\<close>

definition listed_before :: "task \<Rightarrow> task \<Rightarrow> bool" where
  "listed_before a b \<longleftrightarrow>
     created_at b < created_at a \<or> (created_at a = created_at b \<and> task_id a < task_id b)"

text \<open>The field names the parameter type of \<^verbatim>\<open>updateTask\<close> lists.\<close>

definition settable_fields :: "string list" where
  "settable_fields = [''title'', ''description'', ''status'', ''priority'']"

subsection \<open>A concrete platform and concrete stores\<close>

text \<open>
  A small platform to run the methods on: a database file is one byte per row, holding
  the row's id; the file without bytes opens as a new database, as the engine opens an
  empty file, and the file of \<open>one_task\<close> can be opened; the storage never fills up.
  \<open>json_other\<close> answers as the runtime does on the texts it lists
  (\<^verbatim>\<open>new Uint8Array(null)\<close>, \<^verbatim>\<open>new Uint8Array({})\<close> and \<^verbatim>\<open>new Uint8Array(false)\<close>
  have no element, \<^verbatim>\<open>new Uint8Array(true)\<close> has one, elements are taken modulo 256,
  blanks between elements are skipped) and takes any other text as one that is not JSON.
\<close>

definition milk :: task where
  "milk = \<lparr>task_id = 1, title = ''Buy milk'', description = ''2% milk'', status = ''pending'',
           priority = ''low'', user_id = ''u1'', created_at = ''2024-01-01 10:00:00'',
           updated_at = ''2024-01-01 10:00:00''\<rparr>"

definition bread :: task where
  "bread = \<lparr>task_id = 2, title = ''Buy bread'', description = ''rye'', status = ''pending'',
            priority = ''medium'', user_id = ''u1'', created_at = ''2024-01-01 10:00:00'',
            updated_at = ''2024-01-01 10:00:00''\<rparr>"

definition one_task :: engine where
  "one_task = \<lparr>tasks = [milk], sqlite_sequence = 1\<rparr>"

definition two_tasks :: engine where
  "two_tasks = \<lparr>tasks = [milk, bread], sqlite_sequence = 2\<rparr>"

definition test_platform :: platform where
  "test_platform =
     \<lparr>export_db = (\<lambda>e. map (\<lambda>r. word_of_int (task_id r)) (tasks e)),
      open_db = (\<lambda>bs. if bs = [] then Some new_Database
                       else if bs = [1] then Some one_task else None),
      json_other = (\<lambda>t. if t \<in> set [''null'', ''{}'', ''false''] then Some []
                          else if t \<in> set [''true'', ''[256]''] then Some [0]
                          else if t = ''[1, 2]'' then Some [1, 2]
                          else None),
      setItem_ok = (\<lambda>v. True)\<rparr>"

text \<open>An instance that is initialized on the engine state \<open>e\<close>, with its snapshot saved.\<close>

definition running :: "platform \<Rightarrow> engine \<Rightarrow> state" where
  "running P e =
     \<lparr>db = Some e, initialized = True,
      localStorage = Some (JSON_stringify (export_db P e))\<rparr>"

text \<open>A new instance of the class in a browser whose entry holds \<open>v\<close>.\<close>

definition fresh :: "string option \<Rightarrow> state" where
  "fresh v = \<lparr>db = None, initialized = False, localStorage = v\<rparr>"

section \<open>The snapshot text can be read back\<close>

lemma digit_char_val: "d < 10 \<Longrightarrow> digit_val (digit_char d) = d \<and> is_digit (digit_char d)"
proof -
  assume "d < 10"
  then have "d \<in> {0,1,2,3,4,5,6,7,8,9}" by auto
  then show ?thesis
    by (auto simp: digit_val_def digit_char_def digit_chars_def is_digit_def)
qed

lemma is_digit_not_comma: "is_digit c \<Longrightarrow> c \<noteq> CHR '',''"
  by (auto simp: is_digit_def digit_chars_def)

lemma byte_digits:
  assumes "(n::nat) < 256"
  shows "n div 100 < 10" "n div 10 mod 10 < 10" "n mod 10 < 10" "n < 100 \<Longrightarrow> n div 10 < 10"
  using assms by auto

lemma show_byte_digits: "n < 256 \<Longrightarrow> list_all is_digit (show_byte n)"
  by (simp add: show_byte_def digit_char_val byte_digits)

lemma show_byte_no_comma: "n < 256 \<Longrightarrow> CHR '','' \<notin> set (show_byte n)"
  using show_byte_digits [of n] is_digit_not_comma by (auto simp: list_all_iff)

lemma show_byte_nonempty: "show_byte n \<noteq> []"
  by (simp add: show_byte_def)

lemma byte_decimal: "10 * (10 * (n div 100) + n div 10 mod 10) + n mod 10 = (n::nat)"
proof -
  have q: "n div 100 = n div 10 div 10"
    using div_mult2_eq [of n 10 10] by simp
  show ?thesis
    by (simp only: q mult_div_mod_eq)
qed

lemma show_byte_value:
  assumes "n < 256"
  shows "foldl (\<lambda>a c. 10 * a + digit_val c) 0 (show_byte n) = n"
proof -
  note d = byte_digits [OF assms]
  have v: "digit_val (digit_char (n div 100)) = n div 100"
      "digit_val (digit_char (n div 10 mod 10)) = n div 10 mod 10"
      "digit_val (digit_char (n mod 10)) = n mod 10"
    using d digit_char_val by blast+
  consider "n < 10" | "\<not> n < 10" "n < 100" | "\<not> n < 100" by blast
  then show ?thesis
  proof cases
    case 1
    then show ?thesis by (simp add: show_byte_def digit_char_val)
  next
    case 2
    then have "show_byte n = [digit_char (n div 10), digit_char (n mod 10)]"
      by (simp only: show_byte_def if_True if_False)
    moreover have "digit_val (digit_char (n div 10)) = n div 10"
      using d(4) [OF 2(2)] digit_char_val by blast
    ultimately have
      "foldl (\<lambda>a c. 10 * a + digit_val c) 0 (show_byte n) = 10 * (n div 10) + n mod 10"
      by (simp only: foldl.simps v mult_0_right add_0_left)
    then show ?thesis by simp
  next
    case 3
    from 3 assms have "\<not> n < 10" by linarith
    with 3 have "show_byte n =
        [digit_char (n div 100), digit_char (n div 10 mod 10), digit_char (n mod 10)]"
      by (simp only: show_byte_def if_True if_False)
    then have "foldl (\<lambda>a c. 10 * a + digit_val c) 0 (show_byte n)
                 = 10 * (10 * (n div 100) + n div 10 mod 10) + n mod 10"
      by (simp only: foldl.simps v mult_0_right add_0_left)
    also have "\<dots> = n" by (rule byte_decimal)
    finally show ?thesis .
  qed
qed

lemma parse_show_byte: "n < 256 \<Longrightarrow> parse_byte (show_byte n) = Some (of_nat n)"
proof -
  assume n: "n < 256"
  have "length (show_byte n) \<le> 3"
    by (simp add: show_byte_def)
  then show ?thesis
    using n by (simp add: parse_byte_def show_byte_value show_byte_digits show_byte_nonempty)
qed

lemma split_on_no_sep: "c \<notin> set p \<Longrightarrow> split_on c p = [p]"
  by (induction p) auto

lemma split_on_append: "c \<notin> set p \<Longrightarrow> split_on c (p @ c # q) = p # split_on c q"
  by (induction p) auto

lemma split_join:
  "ps \<noteq> [] \<Longrightarrow> \<forall>p \<in> set ps. CHR '','' \<notin> set p \<Longrightarrow> split_on CHR '','' (join_commas ps) = ps"
proof (induction ps rule: join_commas.induct)
  case 1
  then show ?case by simp
next
  case (2 p)
  then show ?case by (simp add: split_on_no_sep)
next
  case (3 p q ps)
  then show ?case by (simp add: split_on_append)
qed

lemma join_nonempty: "ps \<noteq> [] \<Longrightarrow> \<forall>p \<in> set ps. p \<noteq> [] \<Longrightarrow> join_commas ps \<noteq> []"
  by (induction ps rule: join_commas.induct) auto

lemma unat_byte: "unat (b :: byte) < 256"
  using unsigned_less [of b] by simp

lemma those_parse_show: "those (map parse_byte (map (\<lambda>b. show_byte (unat b)) bs)) = Some bs"
proof (induction bs)
  case Nil
  then show ?case by simp
next
  case (Cons b bs)
  have "parse_byte (show_byte (unat b)) = Some b"
    by (simp add: parse_show_byte unat_byte)
  with Cons show ?case by simp
qed

lemma parse_stringify: "parse_byte_array (JSON_stringify bs) = Some bs"
proof (cases "bs = []")
  case True
  then show ?thesis by (simp add: parse_byte_array_def JSON_stringify_def)
next
  case False
  let ?ps = "map (\<lambda>b. show_byte (unat b)) bs"
  have ne: "?ps \<noteq> []" using False by simp
  have nc: "\<forall>p \<in> set ?ps. CHR '','' \<notin> set p"
    by (auto simp: show_byte_no_comma unat_byte)
  have nn: "join_commas ?ps \<noteq> []"
    by (rule join_nonempty [OF ne]) (auto simp: show_byte_nonempty)
  show ?thesis
    using nn split_join [OF ne nc] those_parse_show [of bs]
    by (simp add: parse_byte_array_def JSON_stringify_def)
qed

lemma stringify_nonempty: "JSON_stringify bs \<noteq> []"
  by (simp add: JSON_stringify_def)

lemma JSON_parse_stringify: "JSON_parse_bytes P (JSON_stringify bs) = Some bs"
  by (simp add: JSON_parse_bytes_def parse_stringify)

section \<open>The methods on an initialized instance\<close>


lemma initialize_done: "initialized s \<Longrightarrow> initialize P s = (Inr (), s)"
  by (simp add: initialize_def)

lemma saveToLocalStorage_ok:
  "db s = Some e \<Longrightarrow> setItem_ok P (JSON_stringify (export_db P e)) \<Longrightarrow>
   saveToLocalStorage P s = (Inr (), s\<lparr>localStorage := Some (JSON_stringify (export_db P e))\<rparr>)"
  by (simp add: saveToLocalStorage_def)

lemma saveToLocalStorage_Inr:
  "saveToLocalStorage P s = (Inr u, s') \<Longrightarrow>
   snapshot_current P s' \<and> db s' = db s \<and> initialized s' = initialized s"
  by (auto simp: saveToLocalStorage_def snapshot_current_def Let_def
      split: option.splits if_splits)

lemma saveToLocalStorage_Inl: "saveToLocalStorage P s = (Inl err, s') \<Longrightarrow> s' = s"
  by (auto simp: saveToLocalStorage_def Let_def split: option.splits if_splits)

lemma initialize_Inr:
  assumes "initialize P s = (Inr u, s')"
  shows "initialized s'" and "initialized s \<Longrightarrow> s' = s"
    and "\<not> initialized s \<Longrightarrow> snapshot_current P s'"
proof -
  show "initialized s \<Longrightarrow> s' = s"
    using assms by (simp add: initialize_def)
  show "initialized s'"
    using assms
    by (auto simp: initialize_def initializeDatabase_def
        split: if_splits sum.splits prod.splits option.splits)
  show "\<not> initialized s \<Longrightarrow> snapshot_current P s'"
    using assms
    by (auto simp: initialize_def initializeDatabase_def snapshot_current_def
        split: if_splits sum.splits prod.splits option.splits
        dest!: saveToLocalStorage_Inr)
qed

lemma getTaskById_running:
  "initialized s \<Longrightarrow> db s = Some e \<Longrightarrow> getTaskById P i s = (Inr (select_by_id e i), s)"
  by (simp add: getTaskById_def initialize_done)

lemma getTaskById_state: "initialized s \<Longrightarrow> getTaskById P i s = (r, s') \<Longrightarrow> s' = s"
  by (auto simp: getTaskById_def initialize_done split: option.splits)

lemma largest_rowid_ge: "r \<in> set rs \<Longrightarrow> task_id r \<le> largest_rowid rs"
  by (induction rs) (auto simp: largest_rowid_def)

lemma find_fresh_append:
  "\<forall>x \<in> set rs. task_id x \<noteq> i \<Longrightarrow> task_id r = i \<Longrightarrow> find (\<lambda>x. task_id x = i) (rs @ [r]) = Some r"
  by (induction rs) auto

lemma next_rowid_fresh:
  "x \<in> set (tasks e) \<Longrightarrow> task_id x < max (sqlite_sequence e) (largest_rowid (tasks e)) + 1"
  using largest_rowid_ge [of x "tasks e"] by simp

lemma createTask_running:
  assumes "initialized s" and "db s = Some e"
    and i: "i = max (sqlite_sequence e) (largest_rowid (tasks e)) + 1"
    and r: "r = \<lparr>task_id = i, title = ttl, description = descr, status = ''pending'',
                 priority = (case prio of None \<Rightarrow> ''medium'' | Some p \<Rightarrow> p), user_id = uid,
                 created_at = now, updated_at = now\<rparr>"
    and e': "e' = \<lparr>tasks = tasks e @ [r], sqlite_sequence = i\<rparr>"
    and ok: "setItem_ok P (JSON_stringify (export_db P e'))"
  shows "createTask P now ttl descr prio uid s =
           (Inr (Some r), s\<lparr>db := Some e', localStorage := Some (JSON_stringify (export_db P e'))\<rparr>)"
proof -
  have ins: "insert_task e ttl descr (case prio of None \<Rightarrow> ''medium'' | Some p \<Rightarrow> p) uid now = (i, e')"
    by (simp add: insert_task_def Let_def i r e')
  have fresh: "\<forall>x \<in> set (tasks e). task_id x \<noteq> i"
    using next_rowid_fresh [of _ e] i by fastforce
  have sel: "select_by_id e' i = Some r"
    using find_fresh_append [OF fresh, of r] by (simp add: select_by_id_def e' r)
  let ?s2 = "s\<lparr>db := Some e', localStorage := Some (JSON_stringify (export_db P e'))\<rparr>"
  have sv: "saveToLocalStorage P (s\<lparr>db := Some e'\<rparr>) = (Inr (), ?s2)"
    using saveToLocalStorage_ok [of "s\<lparr>db := Some e'\<rparr>" e' P] ok by simp
  have gt: "getTaskById P i ?s2 = (Inr (select_by_id e' i), ?s2)"
    by (rule getTaskById_running) (simp_all add: assms(1))
  show ?thesis
    unfolding createTask_def
    by (simp add: initialize_done assms(1,2) ins sv gt sel)
qed

lemma set_column_task_id: "task_id (set_column f v r) = task_id r"
  by (simp add: set_column_def)

lemma apply_assignments_task_id: "task_id (apply_assignments us r) = task_id r"
  by (induction us r rule: apply_assignments.induct) (simp_all add: set_column_task_id)

lemma find_map_same_id:
  "(\<And>x. task_id (g x) = task_id x) \<Longrightarrow>
   find (\<lambda>x. task_id x = i) (map g rs) = map_option g (find (\<lambda>x. task_id x = i) rs)"
  by (induction rs) auto

lemma find_holds: "find Q xs = Some x \<Longrightarrow> Q x"
  by (induction xs) (auto split: if_splits)

lemma select_updated:
  "select_by_id (update_by_id e us now i) i =
     map_option (\<lambda>r. (apply_assignments us r)\<lparr>updated_at := now\<rparr>) (select_by_id e i)"
proof -
  let ?g = "\<lambda>r. if task_id r = i then (apply_assignments us r)\<lparr>updated_at := now\<rparr> else r"
  have "find (\<lambda>x. task_id x = i) (map ?g (tasks e)) = map_option ?g (find (\<lambda>x. task_id x = i) (tasks e))"
    by (rule find_map_same_id) (simp add: apply_assignments_task_id)
  moreover have "map_option ?g (find (\<lambda>x. task_id x = i) (tasks e))
      = map_option (\<lambda>r. (apply_assignments us r)\<lparr>updated_at := now\<rparr>) (find (\<lambda>x. task_id x = i) (tasks e))"
  proof (cases "find (\<lambda>x. task_id x = i) (tasks e)")
    case None
    then show ?thesis by simp
  next
    case (Some x)
    then have "task_id x = i" by (rule find_holds)
    with Some show ?thesis by simp
  qed
  ultimately show ?thesis
    by (simp add: select_by_id_def update_by_id_def)
qed

lemma updateTask_running:
  assumes "initialized s" and "db s = Some e" and "updates \<noteq> []"
    and "prepare_update (map fst updates) = None"
    and e': "e' = update_by_id e updates now i"
    and ok: "setItem_ok P (JSON_stringify (export_db P e'))"
  shows "updateTask P now i updates s =
           (Inr (map_option (\<lambda>r. (apply_assignments updates r)\<lparr>updated_at := now\<rparr>)
                   (select_by_id e i)),
            s\<lparr>db := Some e', localStorage := Some (JSON_stringify (export_db P e'))\<rparr>)"
proof -
  let ?s2 = "s\<lparr>db := Some e', localStorage := Some (JSON_stringify (export_db P e'))\<rparr>"
  have sv: "saveToLocalStorage P (s\<lparr>db := Some e'\<rparr>) = (Inr (), ?s2)"
    using saveToLocalStorage_ok [of "s\<lparr>db := Some e'\<rparr>" e' P] ok by simp
  have gt: "getTaskById P i ?s2 = (Inr (select_by_id e' i), ?s2)"
    by (rule getTaskById_running) (simp_all add: assms(1))
  show ?thesis
    unfolding updateTask_def
    using assms(3)
    by (simp add: initialize_done assms(1,2,4) sv [unfolded e'] gt [unfolded e'] select_updated e')
qed

lemma settable_is_text_column: "f \<in> set settable_fields \<Longrightarrow> column_kind_of f = TextColumn"
  by (auto simp: settable_fields_def column_kind_of_def text_columns_def)

lemma prepare_settable:
  "set ks \<subseteq> set settable_fields \<Longrightarrow> prepare_update ks = None"
proof -
  assume "set ks \<subseteq> set settable_fields"
  then have "\<forall>f \<in> set ks. column_kind_of f = TextColumn"
    using settable_is_text_column by blast
  then show ?thesis
    by (simp add: prepare_update_def list_ex_iff)
qed

lemma apply_assignments_status_kept:
  "''status'' \<notin> set (map fst us) \<Longrightarrow> status (apply_assignments us r) = status r"
  by (induction us r rule: apply_assignments.induct) (auto simp: set_column_def)

lemma apply_assignments_priority_kept:
  "''priority'' \<notin> set (map fst us) \<Longrightarrow> priority (apply_assignments us r) = priority r"
  by (induction us r rule: apply_assignments.induct) (auto simp: set_column_def)

lemma apply_assignments_status:
  "distinct (map fst us) \<Longrightarrow> (''status'', v) \<in> set us \<Longrightarrow> status (apply_assignments us r) = v"
proof (induction us r rule: apply_assignments.induct)
  case (1 r)
  then show ?case by simp
next
  case (2 f w us r)
  show ?case
  proof (cases "(''status'', v) \<in> set us")
    case True
    with 2 show ?thesis by simp
  next
    case False
    with 2 have fw: "f = ''status''" "w = v" and notin: "''status'' \<notin> set (map fst us)"
      by auto
    show ?thesis
      using apply_assignments_status_kept [OF notin] fw by (simp add: set_column_def)
  qed
qed

lemma apply_assignments_priority:
  "distinct (map fst us) \<Longrightarrow> (''priority'', v) \<in> set us \<Longrightarrow> priority (apply_assignments us r) = v"
proof (induction us r rule: apply_assignments.induct)
  case (1 r)
  then show ?case by simp
next
  case (2 f w us r)
  show ?case
  proof (cases "(''priority'', v) \<in> set us")
    case True
    with 2 show ?thesis by simp
  next
    case False
    with 2 have fw: "f = ''priority''" "w = v" and notin: "''priority'' \<notin> set (map fst us)"
      by auto
    show ?thesis
      using apply_assignments_priority_kept [OF notin] fw by (simp add: set_column_def)
  qed
qed

lemma update_other_rows:
  "filter (\<lambda>x. task_id x \<noteq> i) (tasks (update_by_id e us now i)) = filter (\<lambda>x. task_id x \<noteq> i) (tasks e)"
proof -
  have "\<And>rs. filter (\<lambda>x. task_id x \<noteq> i)
            (map (\<lambda>r. if task_id r = i then (apply_assignments us r)\<lparr>updated_at := now\<rparr> else r) rs)
          = filter (\<lambda>x. task_id x \<noteq> i) rs"
  proof -
    fix rs show "filter (\<lambda>x. task_id x \<noteq> i)
            (map (\<lambda>r. if task_id r = i then (apply_assignments us r)\<lparr>updated_at := now\<rparr> else r) rs)
          = filter (\<lambda>x. task_id x \<noteq> i) rs"
      by (induction rs) (simp_all add: apply_assignments_task_id)
  qed
  then show ?thesis by (simp add: update_by_id_def)
qed

lemma deleteTask_running:
  assumes "initialized s" and "db s = Some e"
    and e': "e' = delete_by_id e i"
    and ok: "setItem_ok P (JSON_stringify (export_db P e'))"
  shows "deleteTask P i s =
           (Inr True, s\<lparr>db := Some e', localStorage := Some (JSON_stringify (export_db P e'))\<rparr>)"
proof -
  have sv: "saveToLocalStorage P (s\<lparr>db := Some e'\<rparr>) =
      (Inr (), s\<lparr>db := Some e', localStorage := Some (JSON_stringify (export_db P e'))\<rparr>)"
    using saveToLocalStorage_ok [of "s\<lparr>db := Some e'\<rparr>" e' P] ok by simp
  show ?thesis
    unfolding deleteTask_def
    by (simp add: initialize_done assms(1,2) sv [unfolded e'] e')
qed

lemma delete_by_id_twice: "delete_by_id (delete_by_id e i) i = delete_by_id e i"
  by (simp add: delete_by_id_def)

lemma delete_by_id_absent:
  "\<forall>x \<in> set (tasks e). task_id x \<noteq> i \<Longrightarrow> delete_by_id e i = e"
  by (simp add: delete_by_id_def)

section \<open>The order of \<^verbatim>\<open>getAllTasks\<close>\<close>


lemma set_insert_desc: "set (insert_desc r xs) = insert r (set xs)"
  by (induction xs) auto

lemma length_insert_desc: "length (insert_desc r xs) = Suc (length xs)"
  by (induction xs) auto

lemma set_order_by: "set (order_by_created_at_desc rs) = set rs"
  by (induction rs) (simp_all add: set_insert_desc)

lemma length_order_by: "length (order_by_created_at_desc rs) = length rs"
  by (induction rs) (simp_all add: length_insert_desc)

lemma listed_before_later:
  "listed_before x y \<Longrightarrow> \<not> created_at r < created_at x \<Longrightarrow> task_id r < task_id y \<Longrightarrow>
   listed_before r y"
  by (auto simp: listed_before_def)

lemma insert_desc_sorted:
  "sorted_wrt listed_before xs \<Longrightarrow> \<forall>y \<in> set xs. task_id r < task_id y \<Longrightarrow>
   sorted_wrt listed_before (insert_desc r xs)"
proof (induction xs)
  case Nil
  then show ?case by simp
next
  case (Cons x xs)
  show ?case
  proof (cases "created_at r < created_at x")
    case True
    then have "listed_before x r" by (simp add: listed_before_def)
    with Cons True show ?thesis by (auto simp: set_insert_desc)
  next
    case False
    then have "listed_before r x"
      using Cons.prems(2) by (auto simp: listed_before_def)
    moreover have "\<forall>y \<in> set xs. listed_before r y"
      using Cons.prems False by (auto intro: listed_before_later)
    ultimately show ?thesis
      using Cons.prems(1) False by simp
  qed
qed

lemma order_by_sorted:
  "sorted_wrt (<) (map task_id rs) \<Longrightarrow> sorted_wrt listed_before (order_by_created_at_desc rs)"
proof (induction rs)
  case Nil
  then show ?case by simp
next
  case (Cons r rs)
  then show ?case
    by (auto intro!: insert_desc_sorted simp: set_order_by)
qed

lemma sorted_ids_filter:
  "sorted_wrt (<) (map task_id rs) \<Longrightarrow> sorted_wrt (<) (map task_id (filter Q rs))"
  by (induction rs) auto

lemma getAllTasks_running:
  "initialized s \<Longrightarrow> db s = Some e \<Longrightarrow> getAllTasks P uid s = (Inr (select_by_user e uid), s)"
  by (simp add: getAllTasks_def initialize_done)

section \<open>The methods on any instance\<close>

text \<open>
  A method called on an instance that is not initialized yet runs \<^verbatim>\<open>initialize\<close> first and
  then behaves as on the initialized instance; when \<^verbatim>\<open>initialize\<close> throws, the method
  throws the same error.
\<close>

lemma insert_task_eq:
  "insert_task e ttl descr p uid now =
     (max (sqlite_sequence e) (largest_rowid (tasks e)) + 1,
      \<lparr>tasks = tasks e @ [\<lparr>task_id = max (sqlite_sequence e) (largest_rowid (tasks e)) + 1,
                           title = ttl, description = descr, status = ''pending'',
                           priority = p, user_id = uid, created_at = now, updated_at = now\<rparr>],
       sqlite_sequence = max (sqlite_sequence e) (largest_rowid (tasks e)) + 1\<rparr>)"
  by (simp add: insert_task_def Let_def)

lemma getTaskById_initialize:
  "initialize P s = (Inr u, s1) \<Longrightarrow> getTaskById P i s = getTaskById P i s1"
  using initialize_Inr(1) [of P s u s1] by (simp add: getTaskById_def initialize_done)

lemma createTask_initialize:
  "initialize P s = (Inr u, s1) \<Longrightarrow>
   createTask P now ttl descr prio uid s = createTask P now ttl descr prio uid s1"
  using initialize_Inr(1) [of P s u s1] by (simp add: createTask_def initialize_done)

lemma updateTask_initialize:
  "initialize P s = (Inr u, s1) \<Longrightarrow> updateTask P now i updates s = updateTask P now i updates s1"
  using initialize_Inr(1) [of P s u s1] by (simp add: updateTask_def initialize_done)

lemma deleteTask_initialize:
  "initialize P s = (Inr u, s1) \<Longrightarrow> deleteTask P i s = deleteTask P i s1"
  using initialize_Inr(1) [of P s u s1] by (simp add: deleteTask_def initialize_done)

lemma getAllTasks_initialize:
  "initialize P s = (Inr u, s1) \<Longrightarrow> getAllTasks P uid s = getAllTasks P uid s1"
  using initialize_Inr(1) [of P s u s1] by (simp add: getAllTasks_def initialize_done)

lemma initialize_Inl_methods:
  assumes "initialize P s = (Inl err, s1)"
  shows "createTask P now ttl descr prio uid s = (Inl err, s1)"
    and "updateTask P now i updates s = (Inl err, s1)"
    and "deleteTask P i s = (Inl err, s1)"
    and "getAllTasks P uid s = (Inl err, s1)"
    and "getTaskById P i s = (Inl err, s1)"
  using assms
  by (simp_all add: createTask_def updateTask_def deleteTask_def getAllTasks_def getTaskById_def)

lemma getTaskById_Inr_snapshot:
  assumes "getTaskById P i s = (Inr r, s')" and "initialized s \<longrightarrow> snapshot_current P s"
  shows "snapshot_current P s'"
proof (cases "initialized s")
  case True
  with assms show ?thesis
    using getTaskById_state [of s P i "Inr r" s'] by simp
next
  case False
  obtain res s1 where i: "initialize P s = (res, s1)"
    by (cases "initialize P s")
  with assms(1) obtain u where res: "res = Inr u"
    by (cases res) (auto simp: getTaskById_def)
  have "snapshot_current P s1"
    using initialize_Inr(3) [of P s u s1] i res False by simp
  moreover have "s' = s1"
    using assms(1) i res by (auto simp: getTaskById_def split: option.splits)
  ultimately show ?thesis by simp
qed

lemma save_then_read_snapshot:
  assumes "initialized s1"
    and "saveToLocalStorage P (s1\<lparr>db := Some e'\<rparr>) = (Inr u, s2)"
    and "getTaskById P i s2 = (r, s')"
  shows "snapshot_current P s'"
proof -
  have "snapshot_current P s2" and "initialized s2"
    using saveToLocalStorage_Inr [OF assms(2)] assms(1) by simp_all
  moreover have "s' = s2"
    using getTaskById_state [OF \<open>initialized s2\<close> assms(3)] .
  ultimately show ?thesis by simp
qed

lemma createTask_Inr_snapshot:
  assumes "createTask P now ttl descr prio uid s = (Inr r, s')"
  shows "snapshot_current P s'"
proof -
  obtain res s1 where i: "initialize P s = (res, s1)"
    by (cases "initialize P s")
  with assms obtain u where res: "res = Inr u"
    by (cases res) (auto simp: createTask_def)
  have init: "initialized s1"
    using initialize_Inr(1) [of P s u s1] i res by simp
  from assms i res obtain e where e: "db s1 = Some e"
    by (cases "db s1") (auto simp: createTask_def)
  obtain lastId e' where ins:
    "insert_task e ttl descr (case prio of None \<Rightarrow> ''medium'' | Some p \<Rightarrow> p) uid now = (lastId, e')"
    by (cases "insert_task e ttl descr (case prio of None \<Rightarrow> ''medium'' | Some p \<Rightarrow> p) uid now")
  obtain res2 s2 where sv: "saveToLocalStorage P (s1\<lparr>db := Some e'\<rparr>) = (res2, s2)"
    by (cases "saveToLocalStorage P (s1\<lparr>db := Some e'\<rparr>)")
  from assms i res e ins sv obtain u' where res2: "res2 = Inr u'"
    by (cases res2) (auto simp: createTask_def)
  from assms i res e ins sv res2 have g: "getTaskById P lastId s2 = (Inr r, s')"
    by (simp add: createTask_def)
  show ?thesis
    using save_then_read_snapshot [OF init sv [unfolded res2] g] .
qed

lemma updateTask_Inr_snapshot:
  assumes "updateTask P now i updates s = (Inr r, s')" and "updates \<noteq> []"
  shows "snapshot_current P s'"
proof -
  obtain res s1 where i: "initialize P s = (res, s1)"
    by (cases "initialize P s")
  with assms(1) obtain u where res: "res = Inr u"
    by (cases res) (auto simp: updateTask_def)
  have init: "initialized s1"
    using initialize_Inr(1) [of P s u s1] i res by simp
  from assms i res obtain e where e: "db s1 = Some e"
    by (cases "db s1") (auto simp: updateTask_def)
  from assms i res e have prep: "prepare_update (map fst updates) = None"
    by (cases "prepare_update (map fst updates)") (auto simp: updateTask_def)
  obtain res2 s2 where sv:
    "saveToLocalStorage P (s1\<lparr>db := Some (update_by_id e updates now i)\<rparr>) = (res2, s2)"
    by (cases "saveToLocalStorage P (s1\<lparr>db := Some (update_by_id e updates now i)\<rparr>)")
  from assms i res e prep sv obtain u' where res2: "res2 = Inr u'"
    by (cases res2) (auto simp: updateTask_def)
  from assms i res e prep sv res2 have g: "getTaskById P i s2 = (Inr r, s')"
    by (simp add: updateTask_def)
  show ?thesis
    using save_then_read_snapshot [OF init sv [unfolded res2] g] .
qed

lemma deleteTask_Inr_snapshot:
  assumes "deleteTask P i s = (Inr b, s')"
  shows "snapshot_current P s'"
proof -
  obtain res s1 where i: "initialize P s = (res, s1)"
    by (cases "initialize P s")
  with assms(1) obtain u where res: "res = Inr u"
    by (cases res) (auto simp: deleteTask_def)
  from assms i res obtain e where e: "db s1 = Some e"
    by (cases "db s1") (auto simp: deleteTask_def)
  obtain res2 s2 where sv:
    "saveToLocalStorage P (s1\<lparr>db := Some (delete_by_id e i)\<rparr>) = (res2, s2)"
    by (cases "saveToLocalStorage P (s1\<lparr>db := Some (delete_by_id e i)\<rparr>)")
  from assms i res e sv obtain u' where res2: "res2 = Inr u'"
    by (cases res2) (auto simp: deleteTask_def)
  from assms i res e sv res2 have "s' = s2"
    by (simp add: deleteTask_def)
  then show ?thesis
    using saveToLocalStorage_Inr [OF sv [unfolded res2]] by simp
qed

section \<open>The table stays in rowid order\<close>

text \<open>
  The empty table is in rowid order, and the three statements that write keep it so:
  the \<^verbatim>\<open>INSERT\<close> appends a row with a larger id, the \<^verbatim>\<open>UPDATE\<close> leaves the ids
  alone, the \<^verbatim>\<open>DELETE\<close> takes rows out.
\<close>

lemma rowid_order_new: "sorted_wrt (<) (map task_id (tasks new_Database))"
  by (simp add: new_Database_def)

lemma rowid_order_insert:
  assumes "sorted_wrt (<) (map task_id (tasks e))"
  shows "sorted_wrt (<) (map task_id (tasks (snd (insert_task e ttl descr p uid now))))"
proof -
  have "\<forall>x \<in> set (tasks e). task_id x < max (sqlite_sequence e) (largest_rowid (tasks e)) + 1"
    using next_rowid_fresh by blast
  with assms show ?thesis
    by (simp add: insert_task_eq sorted_wrt_append)
qed

lemma rowid_order_update:
  "sorted_wrt (<) (map task_id (tasks e)) \<Longrightarrow>
   sorted_wrt (<) (map task_id (tasks (update_by_id e us now i)))"
proof -
  have "map task_id (tasks (update_by_id e us now i)) = map task_id (tasks e)"
    by (simp add: update_by_id_def apply_assignments_task_id cong: map_cong)
  then show "sorted_wrt (<) (map task_id (tasks e)) \<Longrightarrow>
      sorted_wrt (<) (map task_id (tasks (update_by_id e us now i)))"
    by simp
qed

lemma rowid_order_delete:
  "sorted_wrt (<) (map task_id (tasks e)) \<Longrightarrow>
   sorted_wrt (<) (map task_id (tasks (delete_by_id e i)))"
  by (simp add: delete_by_id_def sorted_ids_filter)

section \<open>Reading a row, and the fields of an update\<close>

text \<open>
  \<^verbatim>\<open>SELECT * FROM tasks WHERE id = ?\<close> returns a row with that id when there is one,
  and the only one when the ids are distinct.
\<close>

lemma select_by_id_None: "select_by_id e i = None \<longleftrightarrow> (\<forall>x \<in> set (tasks e). task_id x \<noteq> i)"
  by (auto simp: select_by_id_def find_None_iff)

lemma select_by_id_Some: "select_by_id e i = Some r \<Longrightarrow> r \<in> set (tasks e) \<and> task_id r = i"
  by (auto simp: select_by_id_def find_Some_iff)

lemma find_unique_id:
  "distinct (map task_id rs) \<Longrightarrow> r \<in> set rs \<Longrightarrow> find (\<lambda>x. task_id x = task_id r) rs = Some r"
  by (induction rs) (auto simp: rev_image_eqI)

lemma select_by_id_unique:
  "distinct (map task_id (tasks e)) \<Longrightarrow> r \<in> set (tasks e) \<Longrightarrow> task_id r = i \<Longrightarrow>
   select_by_id e i = Some r"
  using find_unique_id [of "tasks e" r] by (auto simp: select_by_id_def)

lemma updateTask_no_fields_eq: "updateTask P now i [] s = getTaskById P i s"
proof (cases "initialize P s")
  case (Pair res s1)
  show ?thesis
  proof (cases res)
    case (Inl err)
    with Pair show ?thesis by (simp add: updateTask_def getTaskById_def)
  next
    case (Inr u)
    with Pair have "getTaskById P i s = getTaskById P i s1"
      by (simp add: getTaskById_initialize)
    with Pair Inr show ?thesis by (simp add: updateTask_def)
  qed
qed

lemma getTaskById_snd: "snd (getTaskById P i s) = snd (initialize P s)"
  by (auto simp: getTaskById_def split: prod.splits sum.splits option.splits)

text \<open>
  A column that is assigned in the \<^verbatim>\<open>SET\<close> clause has the value given, a column that
  is not assigned keeps its value.
\<close>

lemma apply_assignments_kept:
  assumes "\<And>f v r. f \<noteq> c \<Longrightarrow> g (set_column f v r) = g r"
  shows "c \<notin> set (map fst us) \<Longrightarrow> g (apply_assignments us r) = g r"
proof (induction us r rule: apply_assignments.induct)
  case (1 r)
  then show ?case by simp
next
  case (2 f v us r)
  then have "f \<noteq> c" by auto
  then have "g (set_column f v r) = g r" by (rule assms)
  with 2 show ?case by simp
qed

lemma apply_assignments_given:
  assumes kept: "\<And>f v r. f \<noteq> c \<Longrightarrow> g (set_column f v r) = g r"
    and given: "\<And>v r. g (set_column c v r) = v"
  shows "distinct (map fst us) \<Longrightarrow> (c, v) \<in> set us \<Longrightarrow> g (apply_assignments us r) = v"
proof (induction us r rule: apply_assignments.induct)
  case (1 r)
  then show ?case by simp
next
  case (2 f w us r)
  show ?case
  proof (cases "(c, v) \<in> set us")
    case True
    with 2 show ?thesis by simp
  next
    case False
    with 2 have fw: "f = c" "w = v" and notin: "c \<notin> set (map fst us)"
      by auto
    show ?thesis
      using apply_assignments_kept [of c g us, OF kept notin] fw by (simp add: given)
  qed
qed

lemma set_column_other:
  "f \<noteq> ''title'' \<Longrightarrow> title (set_column f v r) = title r"
  "f \<noteq> ''description'' \<Longrightarrow> description (set_column f v r) = description r"
  "f \<noteq> ''status'' \<Longrightarrow> status (set_column f v r) = status r"
  "f \<noteq> ''priority'' \<Longrightarrow> priority (set_column f v r) = priority r"
  "f \<noteq> ''user_id'' \<Longrightarrow> user_id (set_column f v r) = user_id r"
  "f \<noteq> ''created_at'' \<Longrightarrow> created_at (set_column f v r) = created_at r"
  by (simp_all add: set_column_def)

lemma set_column_same:
  "title (set_column ''title'' v r) = v"
  "description (set_column ''description'' v r) = v"
  "status (set_column ''status'' v r) = v"
  "priority (set_column ''priority'' v r) = v"
  "user_id (set_column ''user_id'' v r) = v"
  "created_at (set_column ''created_at'' v r) = v"
  by (simp_all add: set_column_def)

lemma text_column_kind: "f \<in> set text_columns \<Longrightarrow> column_kind_of f = TextColumn"
  by (simp add: column_kind_of_def)

lemma prepare_text_columns:
  assumes "set ks \<subseteq> set text_columns"
  shows "prepare_update ks = None"
proof -
  have "\<forall>f \<in> set ks. column_kind_of f = TextColumn"
    using assms text_column_kind by blast
  then show ?thesis
    by (simp add: prepare_update_def list_ex_iff)
qed

lemma prepare_no_such_column:
  assumes "\<exists>f \<in> set ks. f \<notin> set text_columns"
    and "\<forall>f \<in> set ks. f \<notin> set rowid_names \<and> list_all (\<lambda>c. c \<in> set word_chars) f"
  shows "prepare_update ks = Some EngineError"
proof -
  have k: "\<forall>f \<in> set ks. column_kind_of f = (if f \<in> set text_columns then TextColumn else NoSuchColumn)"
    using assms(2) by (simp add: column_kind_of_def)
  then have "\<not> list_ex (\<lambda>f. column_kind_of f = RowidColumn \<or> column_kind_of f = NotAWord) ks"
    by (auto simp: list_ex_iff)
  moreover have "list_ex (\<lambda>f. column_kind_of f = NoSuchColumn) ks"
    using assms(1) k by (auto simp: list_ex_iff)
  ultimately show ?thesis
    by (simp add: prepare_update_def)
qed

lemma updateTask_not_prepared:
  "initialized s \<Longrightarrow> db s = Some e \<Longrightarrow> updates \<noteq> [] \<Longrightarrow>
   prepare_update (map fst updates) = Some err \<Longrightarrow> updateTask P now i updates s = (Inl err, s)"
  by (simp add: updateTask_def initialize_done)

section \<open>Running the methods on concrete stores\<close>

lemmas evaluate =
  running_def fresh_def test_platform_def new_Database_def one_task_def two_tasks_def
  milk_def bread_def initialize_def initializeDatabase_def load_engine_def
  saveToLocalStorage_def getTaskById_def createTask_def updateTask_def deleteTask_def
  getAllTasks_def insert_task_def select_by_id_def select_by_user_def update_by_id_def
  delete_by_id_def largest_rowid_def prepare_update_def column_kind_of_def text_columns_def
  rowid_names_def
  word_chars_def set_column_def JSON_stringify_def show_byte_def digit_char_def
  digit_chars_def JSON_parse_bytes_def parse_byte_array_def parse_byte_def is_digit_def
  digit_val_def snapshot_current_def Let_def

section \<open>The claims\<close>

subsection \<open>C1: \<^verbatim>\<open>createTask\<close> and validation\<close>

text \<open>
  C1 says that \<^verbatim>\<open>create\<close> fails with a validation error, before any statement runs and
  with the table unchanged, when the title is empty, the description is empty or the
  priority is not one of low, medium, high. \<^verbatim>\<open>createTask\<close> has no check: its first
  statement after \<^verbatim>\<open>initialize\<close> prepares the \<^verbatim>\<open>INSERT\<close>. On the empty store a
  priority \<^verbatim>\<open>urgent\<close> and an empty title are both inserted as row 1, and the snapshot
  is written.
\<close>

theorem createTask_validation_counterexample:
  "createTask test_platform ''2024-01-01 10:00:00'' ''Buy milk'' ''2% milk'' (Some ''urgent'')
       ''u1'' (running test_platform new_Database)
     = (Inr (Some (milk\<lparr>priority := ''urgent''\<rparr>)),
        running test_platform \<lparr>tasks = [milk\<lparr>priority := ''urgent''\<rparr>], sqlite_sequence = 1\<rparr>) \<and>
   createTask test_platform ''2024-01-01 10:00:00'' '''' ''2% milk'' (Some ''low'')
       ''u1'' (running test_platform new_Database)
     = (Inr (Some (milk\<lparr>title := ''''\<rparr>)),
        running test_platform \<lparr>tasks = [milk\<lparr>title := ''''\<rparr>], sqlite_sequence = 1\<rparr>)"
  by (simp add: evaluate)

text \<open>
  C1 as amended: \<^verbatim>\<open>createTask\<close> does not check \<^verbatim>\<open>priority\<close> at run time; the values
  low, medium, high are those of the parameter's static type, and an omitted priority
  is \<^verbatim>\<open>medium\<close>. On an initialized instance, with a non-empty title and a non-empty
  description and whatever priority reaches the call, the call returns the new row with
  that priority, the row is appended to the table, and the snapshot of the new state
  is written. (Nothing is said of an empty title or description.)
\<close>

theorem createTask_priority_unchecked:
  assumes "initialized s" and "db s = Some e" and "ttl \<noteq> []" and "descr \<noteq> []"
    and "setItem_ok P (JSON_stringify (export_db P (snd (insert_task e ttl descr
           (case prio of None \<Rightarrow> ''medium'' | Some p \<Rightarrow> p) uid now))))"
  shows "\<exists>r s' e'. createTask P now ttl descr prio uid s = (Inr (Some r), s') \<and>
           priority r = (case prio of None \<Rightarrow> ''medium'' | Some p \<Rightarrow> p) \<and>
           db s' = Some e' \<and> tasks e' = tasks e @ [r] \<and> snapshot_current P s'"
proof -
  let ?i = "max (sqlite_sequence e) (largest_rowid (tasks e)) + 1"
  let ?r = "\<lparr>task_id = ?i, title = ttl, description = descr, status = ''pending'',
             priority = (case prio of None \<Rightarrow> ''medium'' | Some p \<Rightarrow> p), user_id = uid,
             created_at = now, updated_at = now\<rparr>"
  let ?e' = "\<lparr>tasks = tasks e @ [?r], sqlite_sequence = ?i\<rparr>"
  let ?s' = "s\<lparr>db := Some ?e', localStorage := Some (JSON_stringify (export_db P ?e'))\<rparr>"
  have ok: "setItem_ok P (JSON_stringify (export_db P ?e'))"
    using assms(5) by (simp add: insert_task_eq)
  have c: "createTask P now ttl descr prio uid s = (Inr (Some ?r), ?s')"
    using assms(1,2) refl refl refl ok by (rule createTask_running)
  have "snapshot_current P ?s'"
    by (simp add: snapshot_current_def)
  with c show ?thesis
    by (intro exI [of _ ?r] exI [of _ ?s'] exI [of _ ?e']) simp
qed

theorem createTask_priority_unchecked_witness:
  "initialized (running test_platform new_Database) \<and>
   db (running test_platform new_Database) = Some new_Database \<and>
   ''Buy milk'' \<noteq> [] \<and> ''2% milk'' \<noteq> [] \<and>
   setItem_ok test_platform (JSON_stringify (export_db test_platform (snd (insert_task
       new_Database ''Buy milk'' ''2% milk''
       (case Some ''urgent'' of None \<Rightarrow> ''medium'' | Some p \<Rightarrow> p) ''u1''
       ''2024-01-01 10:00:00'')))) \<and>
   (\<exists>r s' e'. createTask test_platform ''2024-01-01 10:00:00'' ''Buy milk'' ''2% milk''
                 (Some ''urgent'') ''u1'' (running test_platform new_Database)
                 = (Inr (Some r), s') \<and>
           priority r = (case Some ''urgent'' of None \<Rightarrow> ''medium'' | Some p \<Rightarrow> p) \<and>
           db s' = Some e' \<and> tasks e' = tasks new_Database @ [r] \<and>
           snapshot_current test_platform s')"
proof -
  have h1: "initialized (running test_platform new_Database)"
    and h2: "db (running test_platform new_Database) = Some new_Database"
    by (simp_all add: running_def)
  have h3: "''Buy milk'' \<noteq> []" and h4: "''2% milk'' \<noteq> []"
    by simp_all
  have h5: "setItem_ok test_platform (JSON_stringify (export_db test_platform (snd (insert_task
       new_Database ''Buy milk'' ''2% milk''
       (case Some ''urgent'' of None \<Rightarrow> ''medium'' | Some p \<Rightarrow> p) ''u1''
       ''2024-01-01 10:00:00''))))"
    by (simp add: test_platform_def)
  show ?thesis
    using h1 h2 h3 h4 h5 createTask_priority_unchecked [OF h1 h2 h3 h4 h5] by blast
qed

subsection \<open>C2: \<^verbatim>\<open>updateTask\<close> and the values of \<^verbatim>\<open>status\<close> and \<^verbatim>\<open>priority\<close>\<close>

text \<open>
  C2 says that an update with a status outside pending, in_progress, completed, or a
  priority outside low, medium, high, fails with a validation error and leaves the row
  as it was. \<^verbatim>\<open>updateTask\<close> binds the values into the \<^verbatim>\<open>UPDATE\<close> as they come:
  the status \<^verbatim>\<open>archived\<close> is stored and \<^verbatim>\<open>updated_at\<close> is refreshed.
\<close>

theorem updateTask_invalid_status_counterexample:
  "updateTask test_platform ''2024-01-02 09:00:00'' 1 [(''status'', ''archived'')]
       (running test_platform one_task)
     = (Inr (Some (milk\<lparr>status := ''archived'', updated_at := ''2024-01-02 09:00:00''\<rparr>)),
        running test_platform
          \<lparr>tasks = [milk\<lparr>status := ''archived'', updated_at := ''2024-01-02 09:00:00''\<rparr>],
           sqlite_sequence = 1\<rparr>)"
  by (simp add: evaluate)

text \<open>
  C2 as amended: \<^verbatim>\<open>updateTask\<close> does not check \<^verbatim>\<open>status\<close> or \<^verbatim>\<open>priority\<close> at run
  time; their value sets are those of the parameter's static type. On an initialized
  instance that has a row \<open>i\<close>, an update whose fields are among title, description,
  status, priority (each at most once, at least one) returns the row with the status
  and the priority it was given, whatever strings they are, and with \<^verbatim>\<open>updated_at\<close>
  refreshed; the row is stored so, and the snapshot of the new state is written.
\<close>

theorem updateTask_enum_unchecked:
  assumes "initialized s" and "db s = Some e" and "select_by_id e i = Some r"
    and "set (map fst updates) \<subseteq> set settable_fields" and "distinct (map fst updates)"
    and "updates \<noteq> []"
    and "setItem_ok P (JSON_stringify (export_db P (update_by_id e updates now i)))"
  shows "\<exists>r' s'. updateTask P now i updates s = (Inr (Some r'), s') \<and>
           getTaskById P i s' = (Inr (Some r'), s') \<and>
           (\<forall>v. (''status'', v) \<in> set updates \<longrightarrow> status r' = v) \<and>
           (\<forall>v. (''priority'', v) \<in> set updates \<longrightarrow> priority r' = v) \<and>
           updated_at r' = now \<and> snapshot_current P s'"
proof -
  let ?r' = "(apply_assignments updates r)\<lparr>updated_at := now\<rparr>"
  let ?e' = "update_by_id e updates now i"
  let ?s' = "s\<lparr>db := Some ?e', localStorage := Some (JSON_stringify (export_db P ?e'))\<rparr>"
  have prep: "prepare_update (map fst updates) = None"
    using assms(4) by (rule prepare_settable)
  have u: "updateTask P now i updates s = (Inr (Some ?r'), ?s')"
    using updateTask_running [OF assms(1,2,6) prep refl assms(7)] assms(3) by simp
  have g: "getTaskById P i ?s' = (Inr (Some ?r'), ?s')"
    using getTaskById_running [of ?s' ?e' P i] assms(1,3) by (simp add: select_updated)
  have st: "\<forall>v. (''status'', v) \<in> set updates \<longrightarrow> status ?r' = v"
    using apply_assignments_status [OF assms(5)] by simp
  have pr: "\<forall>v. (''priority'', v) \<in> set updates \<longrightarrow> priority ?r' = v"
    using apply_assignments_priority [OF assms(5)] by simp
  have sn: "snapshot_current P ?s'"
    by (simp add: snapshot_current_def)
  show ?thesis
    using u g st pr sn by (intro exI [of _ ?r'] exI [of _ ?s']) simp
qed

theorem updateTask_enum_unchecked_witness:
  "initialized (running test_platform one_task) \<and>
   db (running test_platform one_task) = Some one_task \<and>
   select_by_id one_task 1 = Some milk \<and>
   set (map fst [(''status'', ''archived'')]) \<subseteq> set settable_fields \<and>
   distinct (map fst [(''status'', ''archived'')]) \<and>
   [(''status'', ''archived'')] \<noteq> [] \<and>
   setItem_ok test_platform (JSON_stringify (export_db test_platform
       (update_by_id one_task [(''status'', ''archived'')] ''2024-01-02 09:00:00'' 1))) \<and>
   (\<exists>r' s'. updateTask test_platform ''2024-01-02 09:00:00'' 1 [(''status'', ''archived'')]
               (running test_platform one_task) = (Inr (Some r'), s') \<and>
           getTaskById test_platform 1 s' = (Inr (Some r'), s') \<and>
           (\<forall>v. (''status'', v) \<in> set [(''status'', ''archived'')] \<longrightarrow> status r' = v) \<and>
           (\<forall>v. (''priority'', v) \<in> set [(''status'', ''archived'')] \<longrightarrow> priority r' = v) \<and>
           updated_at r' = ''2024-01-02 09:00:00'' \<and> snapshot_current test_platform s')"
proof -
  have h1: "initialized (running test_platform one_task)"
    and h2: "db (running test_platform one_task) = Some one_task"
    by (simp_all add: running_def)
  have h3: "select_by_id one_task 1 = Some milk"
    by (simp add: select_by_id_def one_task_def milk_def)
  have h4: "set (map fst [(''status'', ''archived'')]) \<subseteq> set settable_fields"
    by (simp add: settable_fields_def)
  have h5: "distinct (map fst [(''status'', ''archived'')])"
    and h6: "[(''status'', ''archived'')] \<noteq> []"
    by simp_all
  have h7: "setItem_ok test_platform (JSON_stringify (export_db test_platform
       (update_by_id one_task [(''status'', ''archived'')] ''2024-01-02 09:00:00'' 1)))"
    by (simp add: test_platform_def)
  show ?thesis
    using h1 h2 h3 h4 h5 h6 h7 updateTask_enum_unchecked [OF h1 h2 h3 h4 h5 h6 h7] by blast
qed

subsection \<open>C3: the fields \<^verbatim>\<open>updateTask\<close> applies\<close>

text \<open>
  C3 says that only title, description, status and priority of \<^verbatim>\<open>partialFields\<close> are
  applied and that any other field name is ignored. \<^verbatim>\<open>updateTask\<close> puts every key
  of the object into the \<^verbatim>\<open>SET\<close> clause: a \<^verbatim>\<open>user_id\<close> in the object overwrites the
  owner of the row, and a name that is no column makes the statement fail, so the title
  next to it is not applied either.
\<close>

theorem updateTask_other_fields_counterexample:
  "updateTask test_platform ''2024-01-02 09:00:00'' 1
       [(''title'', ''Buy oat milk''), (''user_id'', ''u2'')] (running test_platform one_task)
     = (Inr (Some (milk\<lparr>title := ''Buy oat milk'', user_id := ''u2'',
                         updated_at := ''2024-01-02 09:00:00''\<rparr>)),
        running test_platform
          \<lparr>tasks = [milk\<lparr>title := ''Buy oat milk'', user_id := ''u2'',
                          updated_at := ''2024-01-02 09:00:00''\<rparr>],
           sqlite_sequence = 1\<rparr>) \<and>
   updateTask test_platform ''2024-01-02 09:00:00'' 1
       [(''title'', ''Buy oat milk''), (''due'', ''tomorrow'')] (running test_platform one_task)
     = (Inl EngineError, running test_platform one_task)"
  by (simp add: evaluate)

text \<open>
  C3 as amended: \<^verbatim>\<open>updateTask\<close> has no list of allowed fields, it applies every field
  of \<^verbatim>\<open>partialFields\<close>. On an initialized instance:
  \<^item> When the table has a row \<open>i\<close>, every field name is the name of a \<^verbatim>\<open>TEXT\<close> column
    and the storage takes the snapshot, the call returns the row as it is stored
    after the update. Each of title, description, status, priority, \<^verbatim>\<open>user_id\<close> and
    \<^verbatim>\<open>created_at\<close> that is present has the value given (the keys of an object are
    distinct), each that is absent has the value it had, and \<^verbatim>\<open>updated_at\<close> is the
    time of the statement. The id of the row, the ids of the table and the rows with
    another id are unchanged. Without any field the row is returned as it is and the
    instance is left alone. So when only title, description, status and priority are
    present, the names the parameter's static type lists, the id, \<^verbatim>\<open>user_id\<close> and
    \<^verbatim>\<open>created_at\<close> keep their values.
  \<^item> A field name that is no column is not ignored. When some field name is not the
    name of a \<^verbatim>\<open>TEXT\<close> column, and every field name is a word of lower-case letters,
    digits and underscores other than \<^verbatim>\<open>id\<close>, \<^verbatim>\<open>rowid\<close>, \<^verbatim>\<open>oid\<close> and \<^verbatim>\<open>_rowid_\<close>, the
    call fails with the error of the engine; no field is applied and nothing is
    written.
\<close>

theorem updateTask_applies_fields:
  assumes "initialized s" and "db s = Some e"
  shows "(select_by_id e i = Some r \<and> set (map fst updates) \<subseteq> set text_columns \<and>
          setItem_ok P (JSON_stringify (export_db P (update_by_id e updates now i)))
          \<longrightarrow> (\<exists>r' s' e'. updateTask P now i updates s = (Inr (Some r'), s') \<and>
                 db s' = Some e' \<and> select_by_id e' i = Some r' \<and>
                 task_id r' = task_id r \<and>
                 map task_id (tasks e') = map task_id (tasks e) \<and>
                 filter (\<lambda>x. task_id x \<noteq> i) (tasks e') = filter (\<lambda>x. task_id x \<noteq> i) (tasks e) \<and>
                 (updates = [] \<longrightarrow> r' = r \<and> s' = s) \<and>
                 (updates \<noteq> [] \<longrightarrow> updated_at r' = now) \<and>
                 (''title'' \<notin> set (map fst updates) \<longrightarrow> title r' = title r) \<and>
                 (''description'' \<notin> set (map fst updates) \<longrightarrow> description r' = description r) \<and>
                 (''status'' \<notin> set (map fst updates) \<longrightarrow> status r' = status r) \<and>
                 (''priority'' \<notin> set (map fst updates) \<longrightarrow> priority r' = priority r) \<and>
                 (''user_id'' \<notin> set (map fst updates) \<longrightarrow> user_id r' = user_id r) \<and>
                 (''created_at'' \<notin> set (map fst updates) \<longrightarrow> created_at r' = created_at r) \<and>
                 (distinct (map fst updates) \<longrightarrow>
                    (\<forall>v. (''title'', v) \<in> set updates \<longrightarrow> title r' = v) \<and>
                    (\<forall>v. (''description'', v) \<in> set updates \<longrightarrow> description r' = v) \<and>
                    (\<forall>v. (''status'', v) \<in> set updates \<longrightarrow> status r' = v) \<and>
                    (\<forall>v. (''priority'', v) \<in> set updates \<longrightarrow> priority r' = v) \<and>
                    (\<forall>v. (''user_id'', v) \<in> set updates \<longrightarrow> user_id r' = v) \<and>
                    (\<forall>v. (''created_at'', v) \<in> set updates \<longrightarrow> created_at r' = v)))) \<and>
         ((\<exists>f \<in> set (map fst updates). f \<notin> set text_columns) \<and>
          (\<forall>f \<in> set (map fst updates).
              f \<notin> set rowid_names \<and> list_all (\<lambda>c. c \<in> set word_chars) f)
          \<longrightarrow> updateTask P now i updates s = (Inl EngineError, s))"
proof (intro conjI impI)
  assume b: "(\<exists>f \<in> set (map fst updates). f \<notin> set text_columns) \<and>
          (\<forall>f \<in> set (map fst updates).
              f \<notin> set rowid_names \<and> list_all (\<lambda>c. c \<in> set word_chars) f)"
  then have "prepare_update (map fst updates) = Some EngineError"
    using prepare_no_such_column [of "map fst updates"] by blast
  moreover from b have "updates \<noteq> []" by auto
  ultimately show "updateTask P now i updates s = (Inl EngineError, s)"
    using assms by (simp add: updateTask_not_prepared)
next
  assume a: "select_by_id e i = Some r \<and> set (map fst updates) \<subseteq> set text_columns \<and>
          setItem_ok P (JSON_stringify (export_db P (update_by_id e updates now i)))"
  let ?a = "apply_assignments updates r"
  let ?goal = "\<lambda>r' s' e'. updateTask P now i updates s = (Inr (Some r'), s') \<and>
                 db s' = Some e' \<and> select_by_id e' i = Some r' \<and>
                 task_id r' = task_id r \<and>
                 map task_id (tasks e') = map task_id (tasks e) \<and>
                 filter (\<lambda>x. task_id x \<noteq> i) (tasks e') = filter (\<lambda>x. task_id x \<noteq> i) (tasks e) \<and>
                 (updates = [] \<longrightarrow> r' = r \<and> s' = s) \<and>
                 (updates \<noteq> [] \<longrightarrow> updated_at r' = now) \<and>
                 (''title'' \<notin> set (map fst updates) \<longrightarrow> title r' = title r) \<and>
                 (''description'' \<notin> set (map fst updates) \<longrightarrow> description r' = description r) \<and>
                 (''status'' \<notin> set (map fst updates) \<longrightarrow> status r' = status r) \<and>
                 (''priority'' \<notin> set (map fst updates) \<longrightarrow> priority r' = priority r) \<and>
                 (''user_id'' \<notin> set (map fst updates) \<longrightarrow> user_id r' = user_id r) \<and>
                 (''created_at'' \<notin> set (map fst updates) \<longrightarrow> created_at r' = created_at r) \<and>
                 (distinct (map fst updates) \<longrightarrow>
                    (\<forall>v. (''title'', v) \<in> set updates \<longrightarrow> title r' = v) \<and>
                    (\<forall>v. (''description'', v) \<in> set updates \<longrightarrow> description r' = v) \<and>
                    (\<forall>v. (''status'', v) \<in> set updates \<longrightarrow> status r' = v) \<and>
                    (\<forall>v. (''priority'', v) \<in> set updates \<longrightarrow> priority r' = v) \<and>
                    (\<forall>v. (''user_id'', v) \<in> set updates \<longrightarrow> user_id r' = v) \<and>
                    (\<forall>v. (''created_at'', v) \<in> set updates \<longrightarrow> created_at r' = v))"
  have kept: "''title'' \<notin> set (map fst updates) \<longrightarrow> title ?a = title r"
      "''description'' \<notin> set (map fst updates) \<longrightarrow> description ?a = description r"
      "''status'' \<notin> set (map fst updates) \<longrightarrow> status ?a = status r"
      "''priority'' \<notin> set (map fst updates) \<longrightarrow> priority ?a = priority r"
      "''user_id'' \<notin> set (map fst updates) \<longrightarrow> user_id ?a = user_id r"
      "''created_at'' \<notin> set (map fst updates) \<longrightarrow> created_at ?a = created_at r"
    using apply_assignments_kept [of "''title''" title updates r]
      apply_assignments_kept [of "''description''" description updates r]
      apply_assignments_kept [of "''status''" status updates r]
      apply_assignments_kept [of "''priority''" priority updates r]
      apply_assignments_kept [of "''user_id''" user_id updates r]
      apply_assignments_kept [of "''created_at''" created_at updates r]
    by (simp_all add: set_column_other)
  have given: "distinct (map fst updates) \<longrightarrow>
        (\<forall>v. (''title'', v) \<in> set updates \<longrightarrow> title ?a = v) \<and>
        (\<forall>v. (''description'', v) \<in> set updates \<longrightarrow> description ?a = v) \<and>
        (\<forall>v. (''status'', v) \<in> set updates \<longrightarrow> status ?a = v) \<and>
        (\<forall>v. (''priority'', v) \<in> set updates \<longrightarrow> priority ?a = v) \<and>
        (\<forall>v. (''user_id'', v) \<in> set updates \<longrightarrow> user_id ?a = v) \<and>
        (\<forall>v. (''created_at'', v) \<in> set updates \<longrightarrow> created_at ?a = v)"
    using apply_assignments_given [of "''title''" title updates _ r]
      apply_assignments_given [of "''description''" description updates _ r]
      apply_assignments_given [of "''status''" status updates _ r]
      apply_assignments_given [of "''priority''" priority updates _ r]
      apply_assignments_given [of "''user_id''" user_id updates _ r]
      apply_assignments_given [of "''created_at''" created_at updates _ r]
    by (simp add: set_column_other set_column_same)
  show "\<exists>r' s' e'. ?goal r' s' e'"
  proof (cases "updates = []")
    case True
    then have "updateTask P now i updates s = (Inr (Some r), s)"
      using assms a by (simp add: updateTask_def initialize_done getTaskById_running)
    then have "?goal r s e"
      using assms(2) a True by simp
    then show ?thesis by blast
  next
    case False
    let ?r' = "?a\<lparr>updated_at := now\<rparr>"
    let ?e' = "update_by_id e updates now i"
    let ?s' = "s\<lparr>db := Some ?e', localStorage := Some (JSON_stringify (export_db P ?e'))\<rparr>"
    have prep: "prepare_update (map fst updates) = None"
      using a by (simp add: prepare_text_columns)
    have u: "updateTask P now i updates s = (Inr (Some ?r'), ?s')"
      using updateTask_running [OF assms(1,2) False prep refl] a by simp
    have st: "select_by_id ?e' i = Some ?r'"
      using a by (simp add: select_updated)
    have ids: "map task_id (tasks ?e') = map task_id (tasks e)"
      by (simp add: update_by_id_def apply_assignments_task_id cong: map_cong)
    have "?goal ?r' ?s' ?e'"
      using u st ids update_other_rows [of i e updates now] False kept given
      by (simp add: apply_assignments_task_id)
    then show ?thesis by blast
  qed
qed

theorem updateTask_applies_fields_witness:
  "initialized (running test_platform two_tasks) \<and>
   db (running test_platform two_tasks) = Some two_tasks \<and>
   select_by_id two_tasks 2 = Some bread \<and>
   set (map fst [(''title'', ''Buy rolls''), (''description'', ''six''), (''user_id'', ''u2'')])
     \<subseteq> set text_columns \<and>
   distinct (map fst [(''title'', ''Buy rolls''), (''description'', ''six''), (''user_id'', ''u2'')]) \<and>
   setItem_ok test_platform (JSON_stringify (export_db test_platform
       (update_by_id two_tasks
          [(''title'', ''Buy rolls''), (''description'', ''six''), (''user_id'', ''u2'')]
          ''2024-01-02 09:00:00'' 2))) \<and>
   (\<exists>r' s' e'. updateTask test_platform ''2024-01-02 09:00:00'' 2
                  [(''title'', ''Buy rolls''), (''description'', ''six''), (''user_id'', ''u2'')]
                  (running test_platform two_tasks) = (Inr (Some r'), s') \<and>
      db s' = Some e' \<and> select_by_id e' 2 = Some r' \<and> task_id r' = 2 \<and>
      map task_id (tasks e') = [1, 2] \<and>
      filter (\<lambda>x. task_id x \<noteq> 2) (tasks e') = [milk] \<and>
      title r' = ''Buy rolls'' \<and> description r' = ''six'' \<and> user_id r' = ''u2'' \<and>
      status r' = ''pending'' \<and> priority r' = ''medium'' \<and>
      created_at r' = ''2024-01-01 10:00:00'' \<and> updated_at r' = ''2024-01-02 09:00:00'') \<and>
   ''due'' \<in> set (map fst [(''title'', ''Buy rolls''), (''due'', ''tomorrow'')]) \<and>
   ''due'' \<notin> set text_columns \<and>
   ''title'' \<notin> set rowid_names \<and> ''due'' \<notin> set rowid_names \<and>
   list_all (\<lambda>c. c \<in> set word_chars) ''title'' \<and> list_all (\<lambda>c. c \<in> set word_chars) ''due'' \<and>
   updateTask test_platform ''2024-01-02 09:00:00'' 2
       [(''title'', ''Buy rolls''), (''due'', ''tomorrow'')] (running test_platform two_tasks)
     = (Inl EngineError, running test_platform two_tasks)"
proof -
  let ?s = "running test_platform two_tasks"
  let ?us = "[(''title'', ''Buy rolls''), (''description'', ''six''), (''user_id'', ''u2'')]"
  let ?vs = "[(''title'', ''Buy rolls''), (''due'', ''tomorrow'')]"
  have h1: "initialized ?s" and h2: "db ?s = Some two_tasks"
    by (simp_all add: running_def)
  have h3: "select_by_id two_tasks 2 = Some bread"
    by (simp add: select_by_id_def two_tasks_def milk_def bread_def)
  have h4: "set (map fst ?us) \<subseteq> set text_columns"
    by (simp add: text_columns_def)
  have h5: "distinct (map fst ?us)"
    by simp
  have h6: "setItem_ok test_platform (JSON_stringify (export_db test_platform
       (update_by_id two_tasks ?us ''2024-01-02 09:00:00'' 2)))"
    by (simp add: test_platform_def)
  have k: "''due'' \<in> set (map fst ?vs)" "''due'' \<notin> set text_columns"
      "''title'' \<notin> set rowid_names" "''due'' \<notin> set rowid_names"
      "list_all (\<lambda>c. c \<in> set word_chars) ''title''"
      "list_all (\<lambda>c. c \<in> set word_chars) ''due''"
    by (simp_all add: text_columns_def rowid_names_def word_chars_def)
  have tb: "task_id bread = 2" "status bread = ''pending''" "priority bread = ''medium''"
      "created_at bread = ''2024-01-01 10:00:00''"
      "map task_id (tasks two_tasks) = [1, 2]"
      "filter (\<lambda>x. task_id x \<noteq> 2) (tasks two_tasks) = [milk]"
    by (simp_all add: two_tasks_def milk_def bread_def)
  note t = updateTask_applies_fields [OF h1 h2, of 2 bread ?us test_platform
      "''2024-01-02 09:00:00''"]
  from t h3 h4 h6 obtain r' s' e' where
    u: "updateTask test_platform ''2024-01-02 09:00:00'' 2 ?us ?s = (Inr (Some r'), s')"
      "db s' = Some e'" "select_by_id e' 2 = Some r'" "task_id r' = task_id bread"
      "map task_id (tasks e') = map task_id (tasks two_tasks)"
      "filter (\<lambda>x. task_id x \<noteq> 2) (tasks e') = filter (\<lambda>x. task_id x \<noteq> 2) (tasks two_tasks)"
    and g: "title r' = ''Buy rolls''" "description r' = ''six''" "user_id r' = ''u2''"
      "updated_at r' = ''2024-01-02 09:00:00''"
    and kp: "status r' = status bread" "priority r' = priority bread"
      "created_at r' = created_at bread"
    using h5 by auto
  have a: "\<exists>r' s' e'. updateTask test_platform ''2024-01-02 09:00:00'' 2 ?us ?s
                 = (Inr (Some r'), s') \<and>
      db s' = Some e' \<and> select_by_id e' 2 = Some r' \<and> task_id r' = 2 \<and>
      map task_id (tasks e') = [1, 2] \<and>
      filter (\<lambda>x. task_id x \<noteq> 2) (tasks e') = [milk] \<and>
      title r' = ''Buy rolls'' \<and> description r' = ''six'' \<and> user_id r' = ''u2'' \<and>
      status r' = ''pending'' \<and> priority r' = ''medium'' \<and>
      created_at r' = ''2024-01-01 10:00:00'' \<and> updated_at r' = ''2024-01-02 09:00:00''"
    using u g kp tb by (intro exI [of _ r'] exI [of _ s'] exI [of _ e']) simp
  have "(\<exists>f \<in> set (map fst ?vs). f \<notin> set text_columns) \<and>
      (\<forall>f \<in> set (map fst ?vs). f \<notin> set rowid_names \<and> list_all (\<lambda>c. c \<in> set word_chars) f)"
    using k by simp
  then have b: "updateTask test_platform ''2024-01-02 09:00:00'' 2 ?vs ?s = (Inl EngineError, ?s)"
    using updateTask_applies_fields [OF h1 h2, of 2 bread ?vs test_platform
      "''2024-01-02 09:00:00''"]
    by blast
  show ?thesis
    using h1 h2 h3 h4 h5 h6 a k b by blast
qed

subsection \<open>C4: what \<^verbatim>\<open>getAllTasks\<close> returns, and in which order\<close>

text \<open>
  C4 says that \<^verbatim>\<open>getAllTasks(userId)\<close> returns exactly the rows of that user, latest
  \<^verbatim>\<open>created_at\<close> first, and that of two rows with the same \<^verbatim>\<open>created_at\<close> the one
  with the higher id comes first. The query is
  \<^verbatim>\<open>ORDER BY created_at DESC\<close> and nothing more, so rows with the same \<^verbatim>\<open>created_at\<close>
  come in the order of the table scan: the lower id first. Two tasks created within
  the same second show it.
\<close>

theorem getAllTasks_tie_counterexample:
  "getAllTasks test_platform ''u1'' (running test_platform two_tasks)
     = (Inr [milk, bread], running test_platform two_tasks) \<and>
   created_at milk = created_at bread \<and> task_id milk < task_id bread"
  by (simp add: getAllTasks_running [of _ two_tasks] running_def select_by_user_def
      two_tasks_def milk_def bread_def)

text \<open>
  C4 as amended: on an initialized instance whose table is in rowid order,
  \<^verbatim>\<open>getAllTasks(userId)\<close> returns exactly the rows whose \<^verbatim>\<open>user_id\<close> is \<open>userId\<close>, no
  other row and each of them once, ordered by \<^verbatim>\<open>created_at\<close> descending, and two rows
  with the same \<^verbatim>\<open>created_at\<close> in ascending order of id. The result is a function of the
  table, so repeated calls give the same order. The instance is left as it was.
\<close>

theorem getAllTasks_order:
  assumes "initialized s" and "db s = Some e"
    and "sorted_wrt (<) (map task_id (tasks e))"
  shows "\<exists>res. getAllTasks P uid s = (Inr res, s) \<and>
           set res = {r \<in> set (tasks e). user_id r = uid} \<and>
           length res = length (filter (\<lambda>r. user_id r = uid) (tasks e)) \<and>
           sorted_wrt listed_before res"
proof -
  let ?res = "select_by_user e uid"
  have "getAllTasks P uid s = (Inr ?res, s)"
    using assms(1,2) by (rule getAllTasks_running)
  moreover have "set ?res = {r \<in> set (tasks e). user_id r = uid}"
    by (auto simp: select_by_user_def set_order_by)
  moreover have "length ?res = length (filter (\<lambda>r. user_id r = uid) (tasks e))"
    by (simp add: select_by_user_def length_order_by)
  moreover have "sorted_wrt listed_before ?res"
    unfolding select_by_user_def
    by (rule order_by_sorted) (rule sorted_ids_filter [OF assms(3)])
  ultimately show ?thesis by blast
qed

theorem getAllTasks_order_witness:
  "initialized (running test_platform two_tasks) \<and>
   db (running test_platform two_tasks) = Some two_tasks \<and>
   sorted_wrt (<) (map task_id (tasks two_tasks)) \<and>
   (\<exists>res. getAllTasks test_platform ''u1'' (running test_platform two_tasks)
             = (Inr res, running test_platform two_tasks) \<and>
          set res = {r \<in> set (tasks two_tasks). user_id r = ''u1''} \<and>
          length res = length (filter (\<lambda>r. user_id r = ''u1'') (tasks two_tasks)) \<and>
          sorted_wrt listed_before res)"
proof -
  have h1: "initialized (running test_platform two_tasks)"
    and h2: "db (running test_platform two_tasks) = Some two_tasks"
    by (simp_all add: running_def)
  have h3: "sorted_wrt (<) (map task_id (tasks two_tasks))"
    by (simp add: two_tasks_def milk_def bread_def)
  show ?thesis
    using h1 h2 h3 getAllTasks_order [OF h1 h2 h3, of test_platform "''u1''"] by blast
qed

subsection \<open>C5: a snapshot that is saved can be loaded\<close>

text \<open>
  C5: whatever engine state \<open>e\<close> an instance has reached, \<^verbatim>\<open>saveToLocalStorage\<close> followed
  by \<^verbatim>\<open>initialize\<close> on a new instance gives the new instance the engine state \<open>e\<close>: the
  same rows, field for field. The text written is not empty, so the new instance does
  load it, and it is read back to the bytes that were exported. That the engine opens
  its own export of \<open>e\<close> as \<open>e\<close>, and that the storage takes the text, are the
  hypotheses on the platform.
\<close>

theorem save_then_load:
  assumes "db s = Some e"
    and "setItem_ok P (JSON_stringify (export_db P e))"
    and "open_db P (export_db P e) = Some e"
  shows "\<exists>s' t. saveToLocalStorage P s = (Inr (), s') \<and>
           initialize P (fresh (localStorage s')) = (Inr (), t) \<and>
           db t = Some e \<and> initialized t \<and> localStorage t = localStorage s'"
proof -
  let ?v = "JSON_stringify (export_db P e)"
  let ?s' = "s\<lparr>localStorage := Some ?v\<rparr>"
  have sv: "saveToLocalStorage P s = (Inr (), ?s')"
    using assms(1,2) by (rule saveToLocalStorage_ok)
  have ld: "load_engine P (Some ?v) = Inr e"
    by (simp add: load_engine_def stringify_nonempty JSON_parse_stringify assms(3))
  have "initialize P (fresh (Some ?v)) = (Inr (), running P e)"
    by (simp add: initialize_def fresh_def ld initializeDatabase_def saveToLocalStorage_def
        assms(2) running_def)
  then show ?thesis
    using sv by (intro exI [of _ ?s'] exI [of _ "running P e"]) (simp add: running_def)
qed

theorem save_then_load_witness:
  "db (running test_platform one_task) = Some one_task \<and>
   setItem_ok test_platform (JSON_stringify (export_db test_platform one_task)) \<and>
   open_db test_platform (export_db test_platform one_task) = Some one_task \<and>
   (\<exists>s' t. saveToLocalStorage test_platform (running test_platform one_task) = (Inr (), s') \<and>
           initialize test_platform (fresh (localStorage s')) = (Inr (), t) \<and>
           db t = Some one_task \<and> initialized t \<and> localStorage t = localStorage s')"
proof -
  have h1: "db (running test_platform one_task) = Some one_task"
    by (simp add: running_def)
  have h2: "setItem_ok test_platform (JSON_stringify (export_db test_platform one_task))"
    by (simp add: test_platform_def)
  have h3: "open_db test_platform (export_db test_platform one_task) = Some one_task"
    by (simp add: test_platform_def one_task_def milk_def)
  show ?thesis
    using h1 h2 h3 save_then_load [OF h1 h2 h3] by blast
qed

subsection \<open>C6: every mutation writes the snapshot\<close>

text \<open>
  C6: when \<^verbatim>\<open>createTask\<close>, \<^verbatim>\<open>updateTask\<close> with at least one field, or \<^verbatim>\<open>deleteTask\<close>
  returns a result, the \<^verbatim>\<open>localStorage\<close> entry holds the snapshot of the engine state
  the call has produced, whatever instance the call started from. An \<^verbatim>\<open>updateTask\<close>
  without fields runs no statement and writes nothing; the entry, if it was current
  before the call, is current after it.
\<close>

theorem mutation_writes_snapshot:
  "(createTask P now ttl descr prio uid s = (Inr r, s') \<longrightarrow> snapshot_current P s') \<and>
   (updates \<noteq> [] \<and> updateTask P now i updates s = (Inr r, s') \<longrightarrow> snapshot_current P s') \<and>
   (deleteTask P i s = (Inr b, s') \<longrightarrow> snapshot_current P s') \<and>
   ((initialized s \<longrightarrow> snapshot_current P s) \<and> updateTask P now i [] s = (Inr r, s')
      \<longrightarrow> snapshot_current P s')"
proof (intro conjI impI)
  assume "createTask P now ttl descr prio uid s = (Inr r, s')"
  then show "snapshot_current P s'" by (rule createTask_Inr_snapshot)
next
  assume "updates \<noteq> [] \<and> updateTask P now i updates s = (Inr r, s')"
  then show "snapshot_current P s'" using updateTask_Inr_snapshot by blast
next
  assume "deleteTask P i s = (Inr b, s')"
  then show "snapshot_current P s'" by (rule deleteTask_Inr_snapshot)
next
  assume a: "(initialized s \<longrightarrow> snapshot_current P s) \<and> updateTask P now i [] s = (Inr r, s')"
  have "updateTask P now i [] s = getTaskById P i s"
  proof (cases "initialize P s")
    case (Pair res s1)
    show ?thesis
    proof (cases res)
      case (Inl err)
      with Pair show ?thesis by (simp add: updateTask_def getTaskById_def)
    next
      case (Inr u)
      with Pair have "getTaskById P i s = getTaskById P i s1"
        by (simp add: getTaskById_initialize)
      with Pair Inr show ?thesis by (simp add: updateTask_def)
    qed
  qed
  with a show "snapshot_current P s'"
    using getTaskById_Inr_snapshot [of P i s r s'] by simp
qed

theorem mutation_writes_snapshot_witness:
  "createTask test_platform ''2024-01-01 10:00:00'' ''Buy bread'' ''rye'' None ''u1''
       (running test_platform one_task) = (Inr (Some bread), running test_platform two_tasks) \<and>
   snapshot_current test_platform (running test_platform two_tasks) \<and>
   localStorage (running test_platform two_tasks) = Some ''[1,2]'' \<and>
   [(''status'', ''completed'')] \<noteq> [] \<and>
   updateTask test_platform ''2024-01-01 10:00:00'' 2 [(''status'', ''completed'')]
       (running test_platform two_tasks)
     = (Inr (Some (bread\<lparr>status := ''completed''\<rparr>)),
        running test_platform \<lparr>tasks = [milk, bread\<lparr>status := ''completed''\<rparr>],
                                 sqlite_sequence = 2\<rparr>) \<and>
   snapshot_current test_platform
     (running test_platform \<lparr>tasks = [milk, bread\<lparr>status := ''completed''\<rparr>],
                              sqlite_sequence = 2\<rparr>) \<and>
   deleteTask test_platform 2 (running test_platform two_tasks)
     = (Inr True, running test_platform \<lparr>tasks = [milk], sqlite_sequence = 2\<rparr>) \<and>
   snapshot_current test_platform (running test_platform \<lparr>tasks = [milk], sqlite_sequence = 2\<rparr>) \<and>
   localStorage (running test_platform \<lparr>tasks = [milk], sqlite_sequence = 2\<rparr>) = Some ''[1]'' \<and>
   updateTask test_platform ''2024-01-01 10:00:00'' 2 [] (running test_platform two_tasks)
     = (Inr (Some bread), running test_platform two_tasks)"
proof -
  have c: "createTask test_platform ''2024-01-01 10:00:00'' ''Buy bread'' ''rye'' None ''u1''
       (running test_platform one_task) = (Inr (Some bread), running test_platform two_tasks)"
    by (simp add: evaluate)
  have u: "updateTask test_platform ''2024-01-01 10:00:00'' 2 [(''status'', ''completed'')]
       (running test_platform two_tasks)
     = (Inr (Some (bread\<lparr>status := ''completed''\<rparr>)),
        running test_platform \<lparr>tasks = [milk, bread\<lparr>status := ''completed''\<rparr>],
                                 sqlite_sequence = 2\<rparr>)"
    by (simp add: evaluate)
  have d: "deleteTask test_platform 2 (running test_platform two_tasks)
     = (Inr True, running test_platform \<lparr>tasks = [milk], sqlite_sequence = 2\<rparr>)"
    by (simp add: evaluate)
  have n: "updateTask test_platform ''2024-01-01 10:00:00'' 2 [] (running test_platform two_tasks)
     = (Inr (Some bread), running test_platform two_tasks)"
    by (simp add: evaluate)
  have ne: "[(''status'', ''completed'')] \<noteq> []"
    by simp
  have l: "localStorage (running test_platform two_tasks) = Some ''[1,2]''"
      "localStorage (running test_platform \<lparr>tasks = [milk], sqlite_sequence = 2\<rparr>) = Some ''[1]''"
    by (simp_all add: evaluate)
  note t = mutation_writes_snapshot [of test_platform "''2024-01-01 10:00:00''"]
  have s1: "snapshot_current test_platform (running test_platform two_tasks)"
    using c t [of "''Buy bread''" "''rye''" None "''u1''" "running test_platform one_task"
        "Some bread" "running test_platform two_tasks"]
    by blast
  have s2: "snapshot_current test_platform
     (running test_platform \<lparr>tasks = [milk, bread\<lparr>status := ''completed''\<rparr>],
                              sqlite_sequence = 2\<rparr>)"
    using u ne t [of _ _ _ _ "running test_platform two_tasks"
        "Some (bread\<lparr>status := ''completed''\<rparr>)" _ "[(''status'', ''completed'')]" 2]
    by blast
  have s3: "snapshot_current test_platform
      (running test_platform \<lparr>tasks = [milk], sqlite_sequence = 2\<rparr>)"
    using d t [of _ _ _ _ "running test_platform two_tasks" _
        "running test_platform \<lparr>tasks = [milk], sqlite_sequence = 2\<rparr>" _ 2 True]
    by blast
  show ?thesis
    using c u d n ne l s1 s2 s3 by blast
qed

subsection \<open>C7: \<^verbatim>\<open>deleteTask\<close> succeeds for every id\<close>

text \<open>
  C7: on an initialized instance whose storage takes the snapshot, \<^verbatim>\<open>deleteTask(id)\<close>
  returns \<^verbatim>\<open>true\<close> for every id, the rows with another id stay, and when no row has
  the id the engine state is the one before the call. A second call returns the same
  and changes nothing, neither in the instance nor in the entry.
\<close>

theorem deleteTask_idempotent:
  assumes "initialized s" and "db s = Some e"
    and "setItem_ok P (JSON_stringify (export_db P (delete_by_id e i)))"
  shows "\<exists>s1 e1. deleteTask P i s = (Inr True, s1) \<and> deleteTask P i s1 = (Inr True, s1) \<and>
           db s1 = Some e1 \<and> tasks e1 = filter (\<lambda>x. task_id x \<noteq> i) (tasks e) \<and>
           sqlite_sequence e1 = sqlite_sequence e \<and>
           ((\<forall>x \<in> set (tasks e). task_id x \<noteq> i) \<longrightarrow> e1 = e) \<and>
           getTaskById P i s1 = (Inr None, s1)"
proof -
  let ?e1 = "delete_by_id e i"
  let ?s1 = "s\<lparr>db := Some ?e1, localStorage := Some (JSON_stringify (export_db P ?e1))\<rparr>"
  have d1: "deleteTask P i s = (Inr True, ?s1)"
    using assms(1,2) refl assms(3) by (rule deleteTask_running)
  have ok2: "setItem_ok P (JSON_stringify (export_db P (delete_by_id ?e1 i)))"
    using assms(3) by (simp add: delete_by_id_twice)
  have "deleteTask P i ?s1 = (Inr True, ?s1\<lparr>db := Some (delete_by_id ?e1 i),
          localStorage := Some (JSON_stringify (export_db P (delete_by_id ?e1 i)))\<rparr>)"
    by (rule deleteTask_running [OF _ _ refl ok2]) (simp_all add: assms(1))
  then have d2: "deleteTask P i ?s1 = (Inr True, ?s1)"
    by (simp add: delete_by_id_twice)
  have "select_by_id ?e1 i = None"
    by (simp add: select_by_id_def delete_by_id_def find_None_iff)
  then have g: "getTaskById P i ?s1 = (Inr None, ?s1)"
    using getTaskById_running [of ?s1 ?e1 P i] assms(1) by simp
  have ab: "(\<forall>x \<in> set (tasks e). task_id x \<noteq> i) \<longrightarrow> ?e1 = e"
    by (simp add: delete_by_id_absent)
  show ?thesis
    using d1 d2 g ab
    by (intro exI [of _ ?s1] exI [of _ ?e1]) (simp add: delete_by_id_def)
qed

theorem deleteTask_idempotent_witness:
  "initialized (running test_platform two_tasks) \<and>
   db (running test_platform two_tasks) = Some two_tasks \<and>
   setItem_ok test_platform (JSON_stringify (export_db test_platform (delete_by_id two_tasks 7))) \<and>
   (\<exists>s1 e1. deleteTask test_platform 7 (running test_platform two_tasks) = (Inr True, s1) \<and>
           deleteTask test_platform 7 s1 = (Inr True, s1) \<and>
           db s1 = Some e1 \<and> tasks e1 = filter (\<lambda>x. task_id x \<noteq> 7) (tasks two_tasks) \<and>
           sqlite_sequence e1 = sqlite_sequence two_tasks \<and>
           ((\<forall>x \<in> set (tasks two_tasks). task_id x \<noteq> 7) \<longrightarrow> e1 = two_tasks) \<and>
           getTaskById test_platform 7 s1 = (Inr None, s1))"
proof -
  have h1: "initialized (running test_platform two_tasks)"
    and h2: "db (running test_platform two_tasks) = Some two_tasks"
    by (simp_all add: running_def)
  have h3: "setItem_ok test_platform
      (JSON_stringify (export_db test_platform (delete_by_id two_tasks 7)))"
    by (simp add: test_platform_def)
  show ?thesis
    using h1 h2 h3 deleteTask_idempotent [OF h1 h2 h3] by blast
qed

subsection \<open>C8: \<^verbatim>\<open>createTask\<close>, then \<^verbatim>\<open>getTaskById\<close>\<close>

text \<open>
  C8: on an initialized instance whose storage takes the snapshot, \<^verbatim>\<open>createTask\<close> returns
  a row, and \<^verbatim>\<open>getTaskById\<close> on the id of that row returns the same row. Its title,
  description, priority and \<^verbatim>\<open>user_id\<close> are the arguments (the priority \<^verbatim>\<open>medium\<close> when
  it was omitted), its status is \<^verbatim>\<open>pending\<close>, its id is larger than every id in the
  table, and \<^verbatim>\<open>created_at\<close> and \<^verbatim>\<open>updated_at\<close> are both the time of the statement.
  This holds for every input, so for every valid one.
\<close>

theorem createTask_then_getTaskById:
  assumes "initialized s" and "db s = Some e"
    and "setItem_ok P (JSON_stringify (export_db P (snd (insert_task e ttl descr
           (case prio of None \<Rightarrow> ''medium'' | Some p \<Rightarrow> p) uid now))))"
  shows "\<exists>r s'. createTask P now ttl descr prio uid s = (Inr (Some r), s') \<and>
           getTaskById P (task_id r) s' = (Inr (Some r), s') \<and>
           title r = ttl \<and> description r = descr \<and>
           priority r = (case prio of None \<Rightarrow> ''medium'' | Some p \<Rightarrow> p) \<and>
           user_id r = uid \<and> status r = ''pending'' \<and>
           (\<forall>x \<in> set (tasks e). task_id x < task_id r) \<and>
           created_at r = now \<and> updated_at r = created_at r"
proof -
  let ?i = "max (sqlite_sequence e) (largest_rowid (tasks e)) + 1"
  let ?r = "\<lparr>task_id = ?i, title = ttl, description = descr, status = ''pending'',
             priority = (case prio of None \<Rightarrow> ''medium'' | Some p \<Rightarrow> p), user_id = uid,
             created_at = now, updated_at = now\<rparr>"
  let ?e' = "\<lparr>tasks = tasks e @ [?r], sqlite_sequence = ?i\<rparr>"
  let ?s' = "s\<lparr>db := Some ?e', localStorage := Some (JSON_stringify (export_db P ?e'))\<rparr>"
  have ok: "setItem_ok P (JSON_stringify (export_db P ?e'))"
    using assms(3) by (simp add: insert_task_eq)
  have c: "createTask P now ttl descr prio uid s = (Inr (Some ?r), ?s')"
    using assms(1,2) refl refl refl ok by (rule createTask_running)
  have "\<forall>x \<in> set (tasks e). task_id x \<noteq> ?i"
    using next_rowid_fresh [of _ e] by fastforce
  then have "select_by_id ?e' ?i = Some ?r"
    using find_fresh_append [of "tasks e" ?i ?r] by (simp add: select_by_id_def)
  then have g: "getTaskById P (task_id ?r) ?s' = (Inr (Some ?r), ?s')"
    using getTaskById_running [of ?s' ?e' P ?i] assms(1) by simp
  have f: "\<forall>x \<in> set (tasks e). task_id x < task_id ?r"
    using next_rowid_fresh [of _ e] by simp
  show ?thesis
    using c g f by (intro exI [of _ ?r] exI [of _ ?s']) simp
qed

theorem createTask_then_getTaskById_witness:
  "initialized (running test_platform one_task) \<and>
   db (running test_platform one_task) = Some one_task \<and>
   setItem_ok test_platform (JSON_stringify (export_db test_platform (snd (insert_task one_task
       ''Buy bread'' ''rye'' (case None of None \<Rightarrow> ''medium'' | Some p \<Rightarrow> p) ''u1''
       ''2024-01-01 10:00:00'')))) \<and>
   (\<exists>r s'. createTask test_platform ''2024-01-01 10:00:00'' ''Buy bread'' ''rye'' None ''u1''
              (running test_platform one_task) = (Inr (Some r), s') \<and>
           getTaskById test_platform (task_id r) s' = (Inr (Some r), s') \<and>
           title r = ''Buy bread'' \<and> description r = ''rye'' \<and>
           priority r = (case None of None \<Rightarrow> ''medium'' | Some p \<Rightarrow> p) \<and>
           user_id r = ''u1'' \<and> status r = ''pending'' \<and>
           (\<forall>x \<in> set (tasks one_task). task_id x < task_id r) \<and>
           created_at r = ''2024-01-01 10:00:00'' \<and> updated_at r = created_at r)"
proof -
  have h1: "initialized (running test_platform one_task)"
    and h2: "db (running test_platform one_task) = Some one_task"
    by (simp_all add: running_def)
  have h3: "setItem_ok test_platform (JSON_stringify (export_db test_platform (snd (insert_task
       one_task ''Buy bread'' ''rye'' (case None of None \<Rightarrow> ''medium'' | Some p \<Rightarrow> p) ''u1''
       ''2024-01-01 10:00:00''))))"
    by (simp add: test_platform_def)
  show ?thesis
    using h1 h2 h3 createTask_then_getTaskById [OF h1 h2 h3] by blast
qed

subsection \<open>C9: a snapshot that cannot be loaded\<close>

text \<open>
  C9 says that a stored value that cannot be decoded into a snapshot makes the
  initialization fail and is never replaced by an empty database. \<^verbatim>\<open>initialize\<close> has
  no check of its own, it fails when a statement of the load throws, and not every
  stored value that is no snapshot makes one throw. The test \<^verbatim>\<open>if (savedDb)\<close> takes the
  empty string like \<^verbatim>\<open>null\<close>, and the texts \<^verbatim>\<open>null\<close> and \<^verbatim>\<open>false\<close> are valid JSON of
  which \<^verbatim>\<open>new Uint8Array\<close> makes an array without bytes, which the engine opens as a
  new database. In each case the instance starts with an empty table, reports success
  and overwrites the entry with the snapshot of the empty database.
\<close>

theorem initialize_fallback_counterexample:
  "initialize test_platform (fresh (Some ''''))
     = (Inr (), \<lparr>db = Some new_Database, initialized = True, localStorage = Some ''[]''\<rparr>) \<and>
   initialize test_platform (fresh (Some ''null''))
     = (Inr (), \<lparr>db = Some new_Database, initialized = True, localStorage = Some ''[]''\<rparr>) \<and>
   initialize test_platform (fresh (Some ''false''))
     = (Inr (), \<lparr>db = Some new_Database, initialized = True, localStorage = Some ''[]''\<rparr>) \<and>
   JSON_parse_bytes test_platform '''' = None \<and>
   JSON_parse_bytes test_platform ''null'' = Some [] \<and>
   JSON_parse_bytes test_platform ''false'' = Some [] \<and>
   tasks new_Database = []"
  by (simp add: evaluate)

text \<open>
  C9 as amended, for a new instance and an entry that holds a value:
  \<^item> When loading the value throws, that is, the value is a non-empty string on which
    \<^verbatim>\<open>JSON.parse\<close> or \<^verbatim>\<open>new Uint8Array\<close> throws or whose bytes the engine rejects,
    \<^verbatim>\<open>initialize\<close> fails with that error, the instance stays uninitialized, the entry
    is left as it is, and \<^verbatim>\<open>createTask\<close>, \<^verbatim>\<open>getAllTasks\<close>, \<^verbatim>\<open>getTaskById\<close>,
    \<^verbatim>\<open>updateTask\<close> and \<^verbatim>\<open>deleteTask\<close> fail with the same error and change nothing.
  \<^item> When the value is the empty string, or is decoded to bytes that the engine opens
    as a new database (as the array without bytes of \<^verbatim>\<open>null\<close>, \<^verbatim>\<open>{}\<close> and \<^verbatim>\<open>false\<close>),
    and the storage takes the snapshot, \<^verbatim>\<open>initialize\<close> succeeds: the instance has the
    empty table, and the entry is overwritten with its snapshot.
\<close>

theorem initialize_corrupt_snapshot:
  assumes "\<not> initialized s" and "localStorage s = Some v"
  shows "(v \<noteq> [] \<and> (JSON_parse_bytes P v = None \<or>
             (\<exists>bs. JSON_parse_bytes P v = Some bs \<and> open_db P bs = None))
          \<longrightarrow> (\<exists>err. initialize P s = (Inl err, s) \<and>
                 createTask P now ttl descr prio uid s = (Inl err, s) \<and>
                 getAllTasks P uid s = (Inl err, s) \<and>
                 getTaskById P i s = (Inl err, s) \<and>
                 updateTask P now i updates s = (Inl err, s) \<and>
                 deleteTask P i s = (Inl err, s))) \<and>
         ((v = [] \<or> (\<exists>bs. JSON_parse_bytes P v = Some bs \<and> open_db P bs = Some new_Database)) \<and>
          setItem_ok P (JSON_stringify (export_db P new_Database))
          \<longrightarrow> initialize P s = (Inr (), running P new_Database))"
proof (intro conjI impI)
  assume a: "v \<noteq> [] \<and> (JSON_parse_bytes P v = None \<or>
             (\<exists>bs. JSON_parse_bytes P v = Some bs \<and> open_db P bs = None))"
  then obtain err where "load_engine P (Some v) = Inl err"
    by (auto simp: load_engine_def)
  then have "initialize P s = (Inl err, s)"
    using assms by (simp add: initialize_def)
  then show "\<exists>err. initialize P s = (Inl err, s) \<and>
                 createTask P now ttl descr prio uid s = (Inl err, s) \<and>
                 getAllTasks P uid s = (Inl err, s) \<and>
                 getTaskById P i s = (Inl err, s) \<and>
                 updateTask P now i updates s = (Inl err, s) \<and>
                 deleteTask P i s = (Inl err, s)"
    using initialize_Inl_methods [of P s err s] by blast
next
  assume b: "(v = [] \<or> (\<exists>bs. JSON_parse_bytes P v = Some bs \<and> open_db P bs = Some new_Database)) \<and>
          setItem_ok P (JSON_stringify (export_db P new_Database))"
  then have "load_engine P (Some v) = Inr new_Database"
    by (auto simp: load_engine_def)
  then show "initialize P s = (Inr (), running P new_Database)"
    using assms b
    by (simp add: initialize_def initializeDatabase_def saveToLocalStorage_def running_def)
qed

theorem initialize_corrupt_snapshot_witness:
  "\<not> initialized (fresh (Some ''[1,2]'')) \<and>
   localStorage (fresh (Some ''[1,2]'')) = Some ''[1,2]'' \<and> ''[1,2]'' \<noteq> [] \<and>
   JSON_parse_bytes test_platform ''[1,2]'' = Some [1, 2] \<and>
   open_db test_platform [1, 2] = None \<and>
   (\<exists>err. initialize test_platform (fresh (Some ''[1,2]'')) = (Inl err, fresh (Some ''[1,2]'')) \<and>
      createTask test_platform ''2024-01-01 10:00:00'' ''Buy milk'' ''2% milk'' None ''u1''
        (fresh (Some ''[1,2]'')) = (Inl err, fresh (Some ''[1,2]'')) \<and>
      getAllTasks test_platform ''u1'' (fresh (Some ''[1,2]'')) = (Inl err, fresh (Some ''[1,2]'')) \<and>
      getTaskById test_platform 1 (fresh (Some ''[1,2]'')) = (Inl err, fresh (Some ''[1,2]'')) \<and>
      updateTask test_platform ''2024-01-01 10:00:00'' 1 [(''status'', ''completed'')]
        (fresh (Some ''[1,2]'')) = (Inl err, fresh (Some ''[1,2]'')) \<and>
      deleteTask test_platform 1 (fresh (Some ''[1,2]'')) = (Inl err, fresh (Some ''[1,2]''))) \<and>
   \<not> initialized (fresh (Some ''{}'')) \<and> localStorage (fresh (Some ''{}'')) = Some ''{}'' \<and>
   JSON_parse_bytes test_platform ''{}'' = Some [] \<and>
   open_db test_platform [] = Some new_Database \<and>
   setItem_ok test_platform (JSON_stringify (export_db test_platform new_Database)) \<and>
   initialize test_platform (fresh (Some ''{}'')) = (Inr (), running test_platform new_Database)"
proof -
  have h1: "\<not> initialized (fresh (Some ''[1,2]''))"
    and h2: "localStorage (fresh (Some ''[1,2]'')) = Some ''[1,2]''"
    and k1: "\<not> initialized (fresh (Some ''{}''))"
    and k2: "localStorage (fresh (Some ''{}'')) = Some ''{}''"
    by (simp_all add: fresh_def)
  have h3: "''[1,2]'' \<noteq> []"
    by simp
  have p: "JSON_parse_bytes test_platform ''[1,2]'' = Some [1, 2]"
    by (simp add: evaluate)
  have q: "open_db test_platform [1, 2] = None"
    by (simp add: test_platform_def)
  have p': "JSON_parse_bytes test_platform ''{}'' = Some []"
    by (simp add: evaluate)
  have q': "open_db test_platform [] = Some new_Database"
    by (simp add: test_platform_def)
  have ok: "setItem_ok test_platform (JSON_stringify (export_db test_platform new_Database))"
    by (simp add: test_platform_def)
  note t1 = initialize_corrupt_snapshot [OF h1 h2, of test_platform "''2024-01-01 10:00:00''"
      "''Buy milk''" "''2% milk''" None "''u1''" 1 "[(''status'', ''completed'')]"]
  note t2 = initialize_corrupt_snapshot [OF k1 k2, of test_platform]
  have a: "\<exists>err. initialize test_platform (fresh (Some ''[1,2]'')) = (Inl err, fresh (Some ''[1,2]'')) \<and>
      createTask test_platform ''2024-01-01 10:00:00'' ''Buy milk'' ''2% milk'' None ''u1''
        (fresh (Some ''[1,2]'')) = (Inl err, fresh (Some ''[1,2]'')) \<and>
      getAllTasks test_platform ''u1'' (fresh (Some ''[1,2]'')) = (Inl err, fresh (Some ''[1,2]'')) \<and>
      getTaskById test_platform 1 (fresh (Some ''[1,2]'')) = (Inl err, fresh (Some ''[1,2]'')) \<and>
      updateTask test_platform ''2024-01-01 10:00:00'' 1 [(''status'', ''completed'')]
        (fresh (Some ''[1,2]'')) = (Inl err, fresh (Some ''[1,2]'')) \<and>
      deleteTask test_platform 1 (fresh (Some ''[1,2]'')) = (Inl err, fresh (Some ''[1,2]''))"
    using t1 h3 p q by blast
  have b: "initialize test_platform (fresh (Some ''{}''))
      = (Inr (), running test_platform new_Database)"
    using t2 p' q' ok by blast
  show ?thesis
    using h1 h2 h3 p q a k1 k2 p' q' ok b by blast
qed

subsection \<open>C10: \<^verbatim>\<open>updateTask\<close> without fields\<close>

text \<open>
  C10 says that \<^verbatim>\<open>update\<close> with an object without fields is a pure read that writes
  no snapshot. Like every method, \<^verbatim>\<open>updateTask\<close> starts with \<^verbatim>\<open>initialize\<close>, and on an
  instance that is not initialized yet \<^verbatim>\<open>initialize\<close> writes the snapshot of the
  database it has loaded or created: in a browser without an entry, the call leaves
  the entry \<^verbatim>\<open>[]\<close> behind.
\<close>

theorem updateTask_no_fields_counterexample:
  "localStorage (fresh None) = None \<and>
   updateTask test_platform ''2024-01-02 09:00:00'' 1 [] (fresh None)
     = (Inr None, \<lparr>db = Some new_Database, initialized = True, localStorage = Some ''[]''\<rparr>)"
  by (simp add: evaluate)

text \<open>
  C10 as amended: \<^verbatim>\<open>updateTask\<close> with an object without fields runs no \<^verbatim>\<open>UPDATE\<close>
  and is \<^verbatim>\<open>getTaskById\<close>: the same result and the same effect, which is the effect of
  \<^verbatim>\<open>initialize\<close> and no more. On an initialized instance the call leaves the instance
  and the \<^verbatim>\<open>localStorage\<close> entry as they were (no field of any row changes,
  \<^verbatim>\<open>updated_at\<close> is not refreshed, no snapshot is written), and it returns a row of the
  table whose id is the one asked for, or \<^verbatim>\<open>undefined\<close> exactly when no row has that
  id; when the ids of the table are distinct, it returns the row with that id.
\<close>

theorem updateTask_no_fields:
  "updateTask P now i [] s = getTaskById P i s \<and>
   snd (updateTask P now i [] s) = snd (initialize P s) \<and>
   (initialized s \<and> db s = Some e \<longrightarrow>
      (\<exists>res. updateTask P now i [] s = (Inr res, s) \<and>
         (res = None \<longleftrightarrow> (\<forall>x \<in> set (tasks e). task_id x \<noteq> i)) \<and>
         (\<forall>r. res = Some r \<longrightarrow> r \<in> set (tasks e) \<and> task_id r = i) \<and>
         (\<forall>r. distinct (map task_id (tasks e)) \<and> r \<in> set (tasks e) \<and> task_id r = i
              \<longrightarrow> res = Some r)))"
proof (intro conjI impI)
  show eq: "updateTask P now i [] s = getTaskById P i s"
    by (rule updateTask_no_fields_eq)
  show "snd (updateTask P now i [] s) = snd (initialize P s)"
    by (simp add: eq getTaskById_snd)
  assume a: "initialized s \<and> db s = Some e"
  let ?res = "select_by_id e i"
  have f1: "updateTask P now i [] s = (Inr ?res, s)"
    using a by (simp add: eq getTaskById_running)
  have f2: "?res = None \<longleftrightarrow> (\<forall>x \<in> set (tasks e). task_id x \<noteq> i)"
    by (rule select_by_id_None)
  have f3: "\<forall>r. ?res = Some r \<longrightarrow> r \<in> set (tasks e) \<and> task_id r = i"
    using select_by_id_Some by blast
  have f4: "\<forall>r. distinct (map task_id (tasks e)) \<and> r \<in> set (tasks e) \<and> task_id r = i
      \<longrightarrow> ?res = Some r"
    using select_by_id_unique by blast
  show "\<exists>res. updateTask P now i [] s = (Inr res, s) \<and>
         (res = None \<longleftrightarrow> (\<forall>x \<in> set (tasks e). task_id x \<noteq> i)) \<and>
         (\<forall>r. res = Some r \<longrightarrow> r \<in> set (tasks e) \<and> task_id r = i) \<and>
         (\<forall>r. distinct (map task_id (tasks e)) \<and> r \<in> set (tasks e) \<and> task_id r = i
              \<longrightarrow> res = Some r)"
    using f1 f2 f3 f4 by (intro exI [of _ ?res] conjI)
qed

theorem updateTask_no_fields_witness:
  "initialized (running test_platform two_tasks) \<and>
   db (running test_platform two_tasks) = Some two_tasks \<and>
   distinct (map task_id (tasks two_tasks)) \<and> bread \<in> set (tasks two_tasks) \<and>
   task_id bread = 2 \<and>
   updateTask test_platform ''2024-01-02 09:00:00'' 2 [] (running test_platform two_tasks)
     = (Inr (Some bread), running test_platform two_tasks) \<and>
   updateTask test_platform ''2024-01-02 09:00:00'' 2 [] (running test_platform two_tasks)
     = getTaskById test_platform 2 (running test_platform two_tasks) \<and>
   updateTask test_platform ''2024-01-02 09:00:00'' 7 [] (running test_platform two_tasks)
     = (Inr None, running test_platform two_tasks) \<and>
   snd (updateTask test_platform ''2024-01-02 09:00:00'' 7 [] (fresh (Some ''[1]'')))
     = snd (initialize test_platform (fresh (Some ''[1]'')))"
proof -
  let ?s = "running test_platform two_tasks"
  have h: "initialized ?s \<and> db ?s = Some two_tasks"
    by (simp add: running_def)
  have d: "distinct (map task_id (tasks two_tasks))" "bread \<in> set (tasks two_tasks)"
      "task_id bread = 2" "\<forall>x \<in> set (tasks two_tasks). task_id x \<noteq> 7"
    by (simp_all add: two_tasks_def milk_def bread_def)
  note t2 = updateTask_no_fields [of test_platform "''2024-01-02 09:00:00''" 2 ?s two_tasks]
  note t7 = updateTask_no_fields [of test_platform "''2024-01-02 09:00:00''" 7 ?s two_tasks]
  note tf = updateTask_no_fields
      [of test_platform "''2024-01-02 09:00:00''" 7 "fresh (Some ''[1]'')" two_tasks]
  have a: "updateTask test_platform ''2024-01-02 09:00:00'' 2 [] ?s = (Inr (Some bread), ?s)"
    using t2 h d by blast
  have b: "updateTask test_platform ''2024-01-02 09:00:00'' 7 [] ?s = (Inr None, ?s)"
    using t7 h d(4) by blast
  have c: "updateTask test_platform ''2024-01-02 09:00:00'' 2 [] ?s
      = getTaskById test_platform 2 ?s"
    using t2 by blast
  have f: "snd (updateTask test_platform ''2024-01-02 09:00:00'' 7 [] (fresh (Some ''[1]'')))
     = snd (initialize test_platform (fresh (Some ''[1]'')))"
    using tf by blast
  show ?thesis
    using h d(1,2,3) a b c f by blast
qed

end
